theory Spec2Isabelle
  imports Main "HOL-Library.Word" "HOL-Library.Char_ord" "HOL-Library.List_Lexorder"
begin

section \<open>Strings, numbers and values of the JavaScript platform\<close>

text \<open>
  The storage engine (\<^verbatim>\<open>cfkvtree.js\<close>) treats strings as opaque: it joins, compares and
  hashes them. They are modelled as \<^typ>\<open>string\<close>. The path codec (\<^verbatim>\<open>pathparser.js\<close>)
  computes with UTF-16 code units; its strings are lists of 16-bit words (further down).
\<close>

text \<open>\<^verbatim>\<open>Array.prototype.join\<close> on an array of strings.\<close>

fun joinWith :: "'a list \<Rightarrow> 'a list list \<Rightarrow> 'a list" where
  "joinWith sep [] = []"
| "joinWith sep [x] = x"
| "joinWith sep (x # y # ys) = x @ sep @ joinWith sep (y # ys)"

text \<open>\<^verbatim>\<open>String.prototype.includes\<close>: the argument occurs as a contiguous part.\<close>

fun startsWith :: "'a list \<Rightarrow> 'a list \<Rightarrow> bool" where
  "startsWith s [] = True"
| "startsWith [] (p # ps) = False"
| "startsWith (c # cs) (p # ps) = (c = p \<and> startsWith cs ps)"

fun strIncludes :: "'a list \<Rightarrow> 'a list \<Rightarrow> bool" where
  "strIncludes [] part = (part = [])"
| "strIncludes (c # cs) part = (startsWith (c # cs) part \<or> strIncludes cs part)"

text \<open>
  \<^verbatim>\<open>Number.prototype.toString(radix)\<close> on a non-negative integer, as the list of its digit
  values (most significant first), and \<^verbatim>\<open>String.prototype.padStart\<close>.
\<close>

function digits :: "nat \<Rightarrow> nat \<Rightarrow> nat list" where
  "digits b n = (if n < b \<or> b < 2 then [n] else digits b (n div b) @ [n mod b])"
  by pat_completeness auto
termination
  by (relation "measure (\<lambda>(b, n). n)") auto

declare digits.simps [simp del]

definition padStart :: "nat \<Rightarrow> 'a \<Rightarrow> 'a list \<Rightarrow> 'a list" where
  "padStart k fill s = replicate (k - length s) fill @ s"

definition decimalChar :: "nat \<Rightarrow> char" where
  "decimalChar d = char_of (48 + d)"

definition hexLowerChar :: "nat \<Rightarrow> char" where
  "hexLowerChar d = (if d < 10 then char_of (48 + d) else char_of (87 + d))"

text \<open>The text of an integer in a template literal (\<^verbatim>\<open>`${this.maxRetries}`\<close>).\<close>

definition showInt :: "int \<Rightarrow> string" where
  "showInt i = (if i < 0 then CHR ''-'' # map decimalChar (digits 10 (nat (- i)))
                else map decimalChar (digits 10 (nat i)))"

text \<open>
  JavaScript values as far as the engine handles them: what \<^verbatim>\<open>JSON.parse\<close> can return, and
  \<^verbatim>\<open>undefined\<close>. Numbers are restricted to integers. An object is the list of its own
  properties in enumeration order.
\<close>

datatype jsval =
    JUndefined
  | JNull
  | JBool bool
  | JNum int
  | JStr string
  | JArr "jsval list"
  | JObj "(string \<times> jsval) list"

text \<open>
  A thrown value: an error object with the three properties \<^verbatim>\<open>isRetryableError\<close> reads
  (\<^verbatim>\<open>status\<close> is absent on a plain \<^verbatim>\<open>Error\<close>).
\<close>

datatype jsError = JsError (err_status: "int option") (err_name: string) (err_message: string)

definition Error :: "string \<Rightarrow> jsError" where
  "Error msg = JsError None ''Error'' msg"

definition TypeError :: "string \<Rightarrow> jsError" where
  "TypeError msg = JsError None ''TypeError'' msg"

section \<open>The external key-value store\<close>

text \<open>
  The store is an external collaborator with single-key \<^verbatim>\<open>get\<close>, \<^verbatim>\<open>put\<close> and
  \<^verbatim>\<open>delete\<close>. Each call may be rejected. The world holds the store's contents, a script of
  the outcomes of the coming calls (\<open>Some e\<close>: the call is rejected with \<open>e\<close> and has no
  effect; \<open>None\<close>, or an exhausted script: the call succeeds), and the trace of every call and
  every back-off sleep made so far.
\<close>

datatype kv_event =
    KvGet string
  | KvPut string "string option"
  | KvDelete string
  | Sleep int

record world =
  store :: "string \<Rightarrow> string option"
  faults :: "jsError option list"
  trace :: "kv_event list"

type_synonym 'a io = "world \<Rightarrow> (jsError + 'a) \<times> world"

definition returnE :: "'a \<Rightarrow> 'a io" where
  "returnE a = (\<lambda>w. (Inr a, w))"

definition throwE :: "jsError \<Rightarrow> 'a io" where
  "throwE e = (\<lambda>w. (Inl e, w))"

definition bindE :: "'a io \<Rightarrow> ('a \<Rightarrow> 'b io) \<Rightarrow> 'b io" where
  "bindE m f = (\<lambda>w. case m w of (Inl e, w') \<Rightarrow> (Inl e, w') | (Inr a, w') \<Rightarrow> f a w')"

text \<open>\<^verbatim>\<open>try { body } catch (error) { handler }\<close>\<close>

definition tryCatch :: "'a io \<Rightarrow> (jsError \<Rightarrow> 'a io) \<Rightarrow> 'a io" where
  "tryCatch body handler =
     (\<lambda>w. case body w of (Inl e, w') \<Rightarrow> handler e w' | (Inr a, w') \<Rightarrow> (Inr a, w'))"

definition kv_called :: "kv_event \<Rightarrow> world \<Rightarrow> world" where
  "kv_called ev w = w\<lparr>faults := tl (faults w), trace := trace w @ [ev]\<rparr>"

definition kv_get :: "string \<Rightarrow> (string option) io" where
  "kv_get key w =
     (case faults w of
        Some e # _ \<Rightarrow> (Inl e, kv_called (KvGet key) w)
      | _ \<Rightarrow> (Inr (store w key), kv_called (KvGet key) w))"

text \<open>
  \<^verbatim>\<open>put\<close> takes a string; \<^verbatim>\<open>serializeValue\<close> hands it \<^verbatim>\<open>null\<close> for a null value, which
  the runtime's string coercion stores as the text \<^verbatim>\<open>null\<close>.
\<close>

definition kv_coerce :: "string option \<Rightarrow> string" where
  "kv_coerce payload = (case payload of None \<Rightarrow> ''null'' | Some s \<Rightarrow> s)"

definition kv_put :: "string \<Rightarrow> string option \<Rightarrow> unit io" where
  "kv_put key payload w =
     (case faults w of
        Some e # _ \<Rightarrow> (Inl e, kv_called (KvPut key payload) w)
      | _ \<Rightarrow> (Inr (), kv_called (KvPut key payload) (w\<lparr>store := (store w)(key \<mapsto> kv_coerce payload)\<rparr>)))"

definition kv_delete :: "string \<Rightarrow> unit io" where
  "kv_delete key w =
     (case faults w of
        Some e # _ \<Rightarrow> (Inl e, kv_called (KvDelete key) w)
      | _ \<Rightarrow> (Inr (), kv_called (KvDelete key) (w\<lparr>store := (store w)(key := None)\<rparr>)))"

section \<open>KVTreeStorage\<close>

text \<open>
  The object's fields, and the platform functions it calls: \<open>sha256\<close> is
  \<^verbatim>\<open>crypto.subtle.digest('SHA-256', encoder.encode(s))\<close> as a list of bytes,
  \<open>JSON_stringify\<close> and \<open>JSON_parse\<close> are the two functions of \<^verbatim>\<open>JSON\<close>
  (\<open>JSON_parse\<close> returns the \<^verbatim>\<open>SyntaxError\<close> it throws as a value).
\<close>

record KVTreeStorage =
  globalPrefix :: string
  maxRetries :: int
  baseRetryDelay :: int
  sha256 :: "string \<Rightarrow> 8 word list"
  JSON_stringify :: "jsval \<Rightarrow> string"
  JSON_parse :: "string \<Rightarrow> jsError + jsval"

text \<open>The constructor: \<^verbatim>\<open>options.x || default\<close> takes the default for an absent, empty or
  zero option.\<close>

record storageOptions =
  opt_prefix :: "string option"
  opt_maxRetries :: "int option"
  opt_baseRetryDelay :: "int option"

definition orString :: "string option \<Rightarrow> string \<Rightarrow> string" where
  "orString v d = (case v of None \<Rightarrow> d | Some s \<Rightarrow> if s = [] then d else s)"

definition orInt :: "int option \<Rightarrow> int \<Rightarrow> int" where
  "orInt v d = (case v of None \<Rightarrow> d | Some i \<Rightarrow> if i = 0 then d else i)"

definition newKVTreeStorage ::
  "(string \<Rightarrow> 8 word list) \<Rightarrow> (jsval \<Rightarrow> string) \<Rightarrow> (string \<Rightarrow> jsError + jsval) \<Rightarrow>
   storageOptions \<Rightarrow> KVTreeStorage" where
  "newKVTreeStorage digest stringify parse options =
     \<lparr> globalPrefix = orString (opt_prefix options) ''tree'',
       maxRetries = orInt (opt_maxRetries options) 5,
       baseRetryDelay = orInt (opt_baseRetryDelay options) 1000,
       sha256 = digest, JSON_stringify = stringify, JSON_parse = parse \<rparr>"

subsection \<open>hashPath and createStorageKey\<close>

definition byteHex :: "8 word \<Rightarrow> string" where
  "byteHex b = padStart 2 (CHR ''0'') (map hexLowerChar (digits 16 (unat b)))"

definition pathString :: "string list \<Rightarrow> string" where
  "pathString pathArray = joinWith ''::'' pathArray"

definition hashPath :: "KVTreeStorage \<Rightarrow> string list \<Rightarrow> string" where
  "hashPath S pathArray = concat (map byteHex (sha256 S (pathString pathArray)))"

definition createStorageKey :: "KVTreeStorage \<Rightarrow> string list \<Rightarrow> string \<Rightarrow> string" where
  "createStorageKey S pathArray suffix =
     globalPrefix S @ ''-'' @ hashPath S pathArray @ ''-'' @ suffix"

subsection \<open>withRetry\<close>

definition isRetryableError :: "jsError \<Rightarrow> bool" where
  "isRetryableError error \<longleftrightarrow>
     err_status error = Some 429 \<or>
     (case err_status error of Some s \<Rightarrow> s \<ge> 500 | None \<Rightarrow> False) \<or>
     err_name error = ''NetworkError'' \<or>
     strIncludes (err_message error) ''timeout''"

text \<open>
  \<^verbatim>\<open>await this.sleep(this.calculateBackoffDelay(attempt))\<close>: the delay is a floating-point
  number with random jitter and is not modelled; the trace records the sleep and its attempt.
\<close>

definition sleep :: "int \<Rightarrow> world \<Rightarrow> world" where
  "sleep attempt w = w\<lparr>trace := trace w @ [Sleep attempt]\<rparr>"

text \<open>
  The \<^verbatim>\<open>for\<close> loop of \<^verbatim>\<open>withRetry\<close>, entered at \<open>attempt\<close> with \<open>lastError\<close>. The
  statement after the loop reads \<^verbatim>\<open>lastError.message\<close>, a \<^verbatim>\<open>TypeError\<close> when no attempt
  was made.
\<close>

function withRetryFrom ::
  "KVTreeStorage \<Rightarrow> 'a io \<Rightarrow> string \<Rightarrow> int \<Rightarrow> jsError option \<Rightarrow> 'a io" where
  "withRetryFrom S operation ctx attempt lastError w =
     (if attempt < maxRetries S then
        (case operation w of
           (Inr a, w') \<Rightarrow> (Inr a, w')
         | (Inl error, w') \<Rightarrow>
             if isRetryableError error \<and> attempt < maxRetries S - 1
             then withRetryFrom S operation ctx (attempt + 1) (Some error) (sleep attempt w')
             else (Inl error, w'))
      else
        (case lastError of
           Some e \<Rightarrow>
             (Inl (Error (ctx @ '' failed after '' @ showInt (maxRetries S) @ '' attempts: ''
                          @ err_message e)), w)
         | None \<Rightarrow>
             (Inl (TypeError ''Cannot read properties of undefined (reading 'message')''), w)))"
  by pat_completeness auto
termination
  by (relation "measure (\<lambda>(S, operation, ctx, attempt, lastError, w). nat (maxRetries S - attempt))")
     auto

declare withRetryFrom.simps [simp del]

definition withRetry :: "KVTreeStorage \<Rightarrow> 'a io \<Rightarrow> string \<Rightarrow> 'a io" where
  "withRetry S operation ctx = withRetryFrom S operation ctx 0 None"

subsection \<open>nodeExists\<close>

definition nodeExists :: "KVTreeStorage \<Rightarrow> string list \<Rightarrow> bool io" where
  "nodeExists S pathArray =
     tryCatch
       (bindE (kv_get (createStorageKey S pathArray ''value'')) (\<lambda>v. returnE (v \<noteq> None)))
       (\<lambda>error. returnE False)"

subsection \<open>serializeValue and deserializeValue\<close>

text \<open>
  Property assignment \<^verbatim>\<open>obj[key] = v\<close> on an ordinary object: an existing own property keeps
  its place; a new array-index key (the canonical text of an integer below \<open>2^32 - 1\<close>) is
  enumerated among the index keys in ascending numeric order, before every other key; any other
  new key comes last. Assigning to \<^verbatim>\<open>__proto__\<close> reaches the prototype setter and creates no
  own property.
\<close>

definition isDecimalDigit :: "char \<Rightarrow> bool" where
  "isDecimalDigit c \<longleftrightarrow> (48::nat) \<le> of_char c \<and> (of_char c :: nat) \<le> 57"

definition decimalValue :: "string \<Rightarrow> int" where
  "decimalValue s = foldl (\<lambda>acc c. 10 * acc + (of_char c - 48)) 0 s"

definition isArrayIndex :: "string \<Rightarrow> bool" where
  "isArrayIndex key \<longleftrightarrow>
     key \<noteq> [] \<and> list_all isDecimalDigit key \<and> (key = ''0'' \<or> hd key \<noteq> CHR ''0'') \<and>
     decimalValue key < 4294967295"

fun insertIndexKey :: "string \<Rightarrow> jsval \<Rightarrow> (string \<times> jsval) list \<Rightarrow> (string \<times> jsval) list" where
  "insertIndexKey key v [] = [(key, v)]"
| "insertIndexKey key v ((k, x) # rest) =
     (if isArrayIndex k \<and> decimalValue k < decimalValue key
      then (k, x) # insertIndexKey key v rest
      else (key, v) # (k, x) # rest)"

definition objectSet :: "(string \<times> jsval) list \<Rightarrow> string \<Rightarrow> jsval \<Rightarrow> (string \<times> jsval) list" where
  "objectSet obj key v =
     (if key = ''__proto__'' then obj
      else if key \<in> fst ` set obj then map (\<lambda>(k, x). if k = key then (k, v) else (k, x)) obj
      else if isArrayIndex key then insertIndexKey key v obj
      else obj @ [(key, v)])"

text \<open>\<^verbatim>\<open>value[key]\<close> for a key of \<^verbatim>\<open>Object.keys(value)\<close>.\<close>

definition objectGet :: "(string \<times> jsval) list \<Rightarrow> string \<Rightarrow> jsval" where
  "objectGet obj key = (case map_of obj key of Some v \<Rightarrow> v | None \<Rightarrow> JUndefined)"

definition sortedObj :: "(string \<times> jsval) list \<Rightarrow> (string \<times> jsval) list" where
  "sortedObj obj = foldl (\<lambda>sorted key. objectSet sorted key (objectGet obj key)) [] (sort (map fst obj))"

text \<open>The result \<open>None\<close> is \<^verbatim>\<open>null\<close>.\<close>

definition serializeValue :: "KVTreeStorage \<Rightarrow> jsval \<Rightarrow> string option" where
  "serializeValue S v =
     (case v of
        JNull \<Rightarrow> None
      | JUndefined \<Rightarrow> None
      | JObj obj \<Rightarrow> Some (JSON_stringify S (JObj (sortedObj obj)))
      | _ \<Rightarrow> Some (JSON_stringify S v))"

definition deserializeValue :: "KVTreeStorage \<Rightarrow> string option \<Rightarrow> jsError + jsval" where
  "deserializeValue S serialized =
     (case serialized of
        None \<Rightarrow> Inr JNull
      | Some text \<Rightarrow>
          (case JSON_parse S text of
             Inr v \<Rightarrow> Inr v
           | Inl error \<Rightarrow> Inl (Error (''Failed to deserialize value: '' @ err_message error))))"

text \<open>A synchronous computation that may throw, inside an asynchronous function.\<close>

definition liftE :: "jsError + 'a \<Rightarrow> 'a io" where
  "liftE r = (\<lambda>w. (r, w))"

subsection \<open>The children list as a JavaScript value\<close>

text \<open>
  A children record is parsed to whatever JSON it holds, and \<^verbatim>\<open>|| []\<close> replaces a falsy
  result. The engine writes arrays of strings; the operations below say what the array methods
  used on the parsed value do on the other values too.
\<close>

definition truthy :: "jsval \<Rightarrow> bool" where
  "truthy v = (case v of
                 JUndefined \<Rightarrow> False | JNull \<Rightarrow> False | JBool b \<Rightarrow> b | JNum n \<Rightarrow> n \<noteq> 0
               | JStr s \<Rightarrow> s \<noteq> [] | JArr xs \<Rightarrow> True | JObj obj \<Rightarrow> True)"

definition orEmptyArray :: "jsval \<Rightarrow> jsval" where
  "orEmptyArray v = (if truthy v then v else JArr [])"

text \<open>\<^verbatim>\<open>currentChildren.includes(childKey)\<close>\<close>

definition jsIncludes :: "jsval \<Rightarrow> string \<Rightarrow> jsError + bool" where
  "jsIncludes currentChildren childKey =
     (case currentChildren of
        JArr xs \<Rightarrow> Inr (JStr childKey \<in> set xs)
      | JStr s \<Rightarrow> Inr (strIncludes s childKey)
      | _ \<Rightarrow> Inl (TypeError ''currentChildren.includes is not a function''))"

text \<open>\<^verbatim>\<open>currentChildren.push(childKey)\<close>, returning the array after the push.\<close>

definition jsPush :: "jsval \<Rightarrow> string \<Rightarrow> jsError + jsval" where
  "jsPush currentChildren childKey =
     (case currentChildren of
        JArr xs \<Rightarrow> Inr (JArr (xs @ [JStr childKey]))
      | _ \<Rightarrow> Inl (TypeError ''currentChildren.push is not a function''))"

text \<open>\<^verbatim>\<open>currentChildren.filter(key => key !== childKey)\<close>\<close>

definition jsFilterNot :: "jsval \<Rightarrow> string \<Rightarrow> jsError + jsval" where
  "jsFilterNot currentChildren childKey =
     (case currentChildren of
        JArr xs \<Rightarrow> Inr (JArr (filter (\<lambda>key. key \<noteq> JStr childKey) xs))
      | _ \<Rightarrow> Inl (TypeError ''currentChildren.filter is not a function''))"

text \<open>
  \<^verbatim>\<open>String(key)\<close>, the form in which \<^verbatim>\<open>hashPath\<close> takes every key of a path. Paths are
  lists of strings in the model; a key of a children list that is not a string enters a path
  as this text.
\<close>

fun jsToString :: "jsval \<Rightarrow> string" where
  "jsToString JUndefined = ''undefined''"
| "jsToString JNull = ''null''"
| "jsToString (JBool b) = (if b then ''true'' else ''false'')"
| "jsToString (JNum n) = showInt n"
| "jsToString (JStr s) = s"
| "jsToString (JArr xs) =
     joinWith '','' (map (\<lambda>x. if x = JNull \<or> x = JUndefined then [] else jsToString x) xs)"
| "jsToString (JObj obj) = ''[object Object]''"

text \<open>
  \<^verbatim>\<open>for (const childKey of children)\<close>: the keys the loop runs over. An array gives its
  elements, a string its characters; nothing else that JSON holds is iterable.
\<close>

definition forOf :: "string \<Rightarrow> jsval \<Rightarrow> jsError + string list" where
  "forOf what children =
     (case children of
        JArr xs \<Rightarrow> Inr (map jsToString xs)
      | JStr s \<Rightarrow> Inr (map (\<lambda>c. [c]) s)
      | _ \<Rightarrow> Inl (TypeError (what @ '' is not iterable'')))"

text \<open>
  \<^verbatim>\<open>children.length > 0\<close>. An object's \<^verbatim>\<open>length\<close> is its property of that name; the
  number conversion of a property that is not a number or a boolean is not modelled and taken
  as not positive.
\<close>

definition lengthPositive :: "jsval \<Rightarrow> bool" where
  "lengthPositive children =
     (case children of
        JArr xs \<Rightarrow> xs \<noteq> []
      | JStr s \<Rightarrow> s \<noteq> []
      | JObj obj \<Rightarrow> (case map_of obj ''length'' of
                      Some (JNum n) \<Rightarrow> n > 0 | Some (JBool b) \<Rightarrow> b | _ \<Rightarrow> False)
      | _ \<Rightarrow> False)"

subsection \<open>Node records\<close>

definition pathText :: "string list \<Rightarrow> string" where
  "pathText pathArray = joinWith ''/'' pathArray"

fun forEachE :: "'a list \<Rightarrow> ('a \<Rightarrow> unit io) \<Rightarrow> unit io" where
  "forEachE [] body = returnE ()"
| "forEachE (x # xs) body = bindE (body x) (\<lambda>_. forEachE xs body)"

definition addChildToParent :: "KVTreeStorage \<Rightarrow> string list \<Rightarrow> string \<Rightarrow> unit io" where
  "addChildToParent S parentPath childKey =
     (let childrenKey = createStorageKey S parentPath ''children'' in
      bindE (withRetry S (kv_get childrenKey) ''get parent children'') (\<lambda>currentChildrenSerialized.
      bindE (liftE (deserializeValue S currentChildrenSerialized)) (\<lambda>parsed.
      let currentChildren = orEmptyArray parsed in
      bindE (liftE (jsIncludes currentChildren childKey)) (\<lambda>present.
      if \<not> present then
        bindE (liftE (jsPush currentChildren childKey)) (\<lambda>pushed.
          withRetry S (kv_put childrenKey (serializeValue S pushed)) ''update parent children'')
      else returnE ()))))"

definition removeChildFromParent :: "KVTreeStorage \<Rightarrow> string list \<Rightarrow> string \<Rightarrow> unit io" where
  "removeChildFromParent S parentPath childKey =
     (let childrenKey = createStorageKey S parentPath ''children'' in
      bindE (withRetry S (kv_get childrenKey) ''get parent children for removal'')
        (\<lambda>currentChildrenSerialized.
      bindE (liftE (deserializeValue S currentChildrenSerialized)) (\<lambda>parsed.
      let currentChildren = orEmptyArray parsed in
      bindE (liftE (jsFilterNot currentChildren childKey)) (\<lambda>updatedChildren.
        withRetry S (kv_put childrenKey (serializeValue S updatedChildren))
          ''remove child from parent''))))"

text \<open>The body handed to \<^verbatim>\<open>withRetry\<close> by \<^verbatim>\<open>createNode\<close>.\<close>

definition createNodeBody :: "KVTreeStorage \<Rightarrow> string list \<Rightarrow> jsval \<Rightarrow> unit io" where
  "createNodeBody S pathArray v =
     bindE (kv_put (createStorageKey S pathArray ''value'') (serializeValue S v)) (\<lambda>_.
     bindE (if pathArray \<noteq> []
            then kv_put (createStorageKey S pathArray ''parent'')
                   (serializeValue S (JArr (map JStr (butlast pathArray))))
            else returnE ()) (\<lambda>_.
     bindE (kv_put (createStorageKey S pathArray ''children'') (serializeValue S (JArr []))) (\<lambda>_.
     if pathArray \<noteq> [] then addChildToParent S (butlast pathArray) (last pathArray)
     else returnE ())))"

definition createNode :: "KVTreeStorage \<Rightarrow> string list \<Rightarrow> jsval \<Rightarrow> unit io" where
  "createNode S pathArray v =
     bindE (if pathArray = []
            then bindE (nodeExists S []) (\<lambda>exists.
                   if exists then throwE (Error ''Root node already exists'') else returnE ())
            else returnE ()) (\<lambda>_.
     bindE (if pathArray \<noteq> []
            then bindE (nodeExists S (butlast pathArray)) (\<lambda>parentExists.
                   if \<not> parentExists
                   then throwE (Error (''Parent node does not exist: '' @ pathText (butlast pathArray)))
                   else returnE ())
            else returnE ()) (\<lambda>_.
     withRetry S (createNodeBody S pathArray v) (''create node '' @ pathText pathArray)))"

definition initializeRoot :: "KVTreeStorage \<Rightarrow> unit io" where
  "initializeRoot S =
     bindE (nodeExists S []) (\<lambda>rootExists.
       if \<not> rootExists then createNode S [] JNull else returnE ())"


definition setValue :: "KVTreeStorage \<Rightarrow> string list \<Rightarrow> jsval \<Rightarrow> unit io" where
  "setValue S pathArray v =
     bindE (nodeExists S pathArray) (\<lambda>exists.
       if \<not> exists then throwE (Error (''Node does not exist: '' @ pathText pathArray))
       else withRetry S (kv_put (createStorageKey S pathArray ''value'') (serializeValue S v))
              (''set value for '' @ pathText pathArray))"

definition getChildren :: "KVTreeStorage \<Rightarrow> string list \<Rightarrow> jsval io" where
  "getChildren S pathArray =
     bindE (withRetry S (kv_get (createStorageKey S pathArray ''children''))
              (''get children for '' @ pathText pathArray)) (\<lambda>serializedChildren.
       if serializedChildren = None
       then throwE (Error (''Node does not exist: '' @ pathText pathArray))
       else bindE (liftE (deserializeValue S serializedChildren)) (\<lambda>parsed.
              returnE (orEmptyArray parsed)))"

text \<open>The snapshot \<^verbatim>\<open>getNode\<close> returns.\<close>

record node =
  node_path :: "string list"
  node_value :: jsval
  node_children :: jsval
  hasChildren :: bool


subsection \<open>Recursive operations\<close>

text \<open>
  The store is external and unbounded, so a loop that follows children lists need not end.
  Such functions take \<open>fuel\<close>, the number of loop iterations or nested calls they may still
  make, and return \<open>None\<close> when it runs out.
\<close>

type_synonym 'a fio = "world \<Rightarrow> ((jsError + 'a) \<times> world) option"

definition liftF :: "'a io \<Rightarrow> 'a fio" where
  "liftF m = (\<lambda>w. Some (m w))"

definition bindF :: "'a fio \<Rightarrow> ('a \<Rightarrow> 'b fio) \<Rightarrow> 'b fio" where
  "bindF m f =
     (\<lambda>w. case m w of
            None \<Rightarrow> None
          | Some (Inl e, w') \<Rightarrow> Some (Inl e, w')
          | Some (Inr a, w') \<Rightarrow> f a w')"


definition deleteSingleNode :: "KVTreeStorage \<Rightarrow> string list \<Rightarrow> unit io" where
  "deleteSingleNode S pathArray =
     (let keys = [createStorageKey S pathArray ''value'', createStorageKey S pathArray ''children'']
                 @ (if pathArray \<noteq> [] then [createStorageKey S pathArray ''parent''] else [])
      in forEachE keys (\<lambda>key. withRetry S (kv_delete key) (''delete key '' @ key)))"

text \<open>
  The \<^verbatim>\<open>while\<close> loop of \<^verbatim>\<open>collectDescendants\<close> with its \<open>queue\<close> and \<open>descendants\<close>.
  Whatever \<^verbatim>\<open>getChildren\<close> or the iteration throws is caught and the loop goes on.
\<close>

fun collectLoop ::
  "KVTreeStorage \<Rightarrow> nat \<Rightarrow> string list list \<Rightarrow> string list list \<Rightarrow> world \<Rightarrow>
   (string list list \<times> world) option" where
  "collectLoop S fuel [] descendants w = Some (descendants, w)"
| "collectLoop S 0 (currentPath # queue) descendants w = None"
| "collectLoop S (Suc fuel) (currentPath # queue) descendants w =
     (case bindE (getChildren S currentPath) (\<lambda>children. liftE (forOf ''children'' children)) w of
        (Inr keys, w') \<Rightarrow>
          collectLoop S fuel (queue @ map (\<lambda>childKey. currentPath @ [childKey]) keys)
            (descendants @ map (\<lambda>childKey. currentPath @ [childKey]) keys) w'
      | (Inl error, w') \<Rightarrow> collectLoop S fuel queue descendants w')"

definition collectDescendants :: "KVTreeStorage \<Rightarrow> nat \<Rightarrow> string list \<Rightarrow> (string list list) fio" where
  "collectDescendants S fuel pathArray w =
     (case collectLoop S fuel [pathArray] [] w of
        None \<Rightarrow> None
      | Some (descendants, w') \<Rightarrow> Some (Inr descendants, w'))"

definition deleteNode :: "KVTreeStorage \<Rightarrow> nat \<Rightarrow> string list \<Rightarrow> unit fio" where
  "deleteNode S fuel pathArray =
     (if pathArray = [] then liftF (throwE (Error ''Cannot delete root node''))
      else
        bindF (liftF (nodeExists S pathArray)) (\<lambda>exists.
        if \<not> exists
        then liftF (throwE (Error (''Node does not exist: '' @ pathText pathArray)))
        else
          bindF (collectDescendants S fuel pathArray) (\<lambda>descendantPaths.
          liftF (tryCatch
            (bindE (forEachE (rev (pathArray # descendantPaths)) (deleteSingleNode S)) (\<lambda>_.
               removeChildFromParent S (butlast pathArray) (last pathArray)))
            (\<lambda>error. throwE (Error (''Failed to delete node '' @ pathText pathArray @ '': ''
                                      @ err_message error)))))))"



subsection \<open>Traversal\<close>







section \<open>The path codec\<close>

text \<open>
  \<^verbatim>\<open>pathparser.js\<close> computes with the UTF-16 code units of its strings: \<^verbatim>\<open>pathString[i]\<close>,
  \<^verbatim>\<open>charCodeAt\<close>, \<^verbatim>\<open>String.fromCharCode\<close>. A string is the list of its code units. \<open>ch\<close>
  and \<open>ustr\<close> write an ASCII character and an ASCII text as code units.
\<close>

type_synonym jchar = "16 word"
type_synonym jstring = "jchar list"

definition ch :: "char \<Rightarrow> jchar" where
  "ch c = word_of_nat (of_char c)"

definition ustr :: "string \<Rightarrow> jstring" where
  "ustr s = map ch s"

definition charCode :: "jchar \<Rightarrow> int" where
  "charCode c = uint c"

datatype EscapeMethod =
    BACKSLASH_ESCAPES
  | HTML_NAMED_ENTITIES
  | HTML_NUMERIC_ENTITIES
  | CUSTOM_UNICODE_ENTITIES
  | URL_ENCODING

text \<open>\<^verbatim>\<open>Object.values(EscapeMethod)\<close>, the default of the constructor's argument.\<close>

definition allMethods :: "EscapeMethod list" where
  "allMethods = [BACKSLASH_ESCAPES, HTML_NAMED_ENTITIES, HTML_NUMERIC_ENTITIES,
                 CUSTOM_UNICODE_ENTITIES, URL_ENCODING]"

record PathParser =
  enabledMethods :: "EscapeMethod set"
  htmlEntities :: "(string \<times> jstring) list"

definition newPathParser :: "EscapeMethod list \<Rightarrow> PathParser" where
  "newPathParser methods =
     \<lparr> enabledMethods = set methods,
       htmlEntities =
         [(''amp'', ustr ''&''),
          (''lt'', ustr ''<''),
          (''gt'', ustr ''>''),
          (''quot'', [0x22]),
          (''apos'', [0x27]),
          (''nbsp'', [0xA0]),
          (''copy'', [0xA9]),
          (''reg'', [0xAE]),
          (''trade'', [0x2122]),
          (''hellip'', [0x2026]),
          (''mdash'', [0x2014]),
          (''ndash'', [0x2013]),
          (''lsquo'', [0x27]),
          (''rsquo'', [0x27]),
          (''ldquo'', [0x22]),
          (''rdquo'', [0x22]),
          (''bull'', [0x2022]),
          (''deg'', [0xB0]),
          (''plusmn'', [0xB1]),
          (''times'', [0xD7]),
          (''divide'', [0xF7])] \<rparr>"

definition has :: "PathParser \<Rightarrow> EscapeMethod \<Rightarrow> bool" where
  "has P m \<longleftrightarrow> m \<in> enabledMethods P"

text \<open>
  \<^verbatim>\<open>this.htmlEntities[name]\<close> where the parser tests it for truth and appends it to a string.
  \<^verbatim>\<open>htmlEntities\<close> is an object literal, so a name it does not own is looked up on
  \<^verbatim>\<open>Object.prototype\<close>, whose members with a name of letters and digits are the seven
  functions below; appended to a string, a built-in function gives its source text, which V8
  (the runtime of the worker) prints as \<^verbatim>\<open>function name() { [native code] }\<close>.
\<close>

definition objectPrototypeMembers :: "(string \<times> string) list" where
  "objectPrototypeMembers =
     [(''constructor'', ''Object''),
      (''hasOwnProperty'', ''hasOwnProperty''),
      (''isPrototypeOf'', ''isPrototypeOf''),
      (''propertyIsEnumerable'', ''propertyIsEnumerable''),
      (''toLocaleString'', ''toLocaleString''),
      (''toString'', ''toString''),
      (''valueOf'', ''valueOf'')]"

definition nativeFunctionText :: "string \<Rightarrow> jstring" where
  "nativeFunctionText name = ustr (''function '' @ name @ ''() { [native code] }'')"

definition entityText :: "PathParser \<Rightarrow> jstring \<Rightarrow> jstring option" where
  "entityText P name =
     (case map_of (map (\<lambda>(k, v). (ustr k, v)) (htmlEntities P)) name of
        Some v \<Rightarrow> (if v = [] then None else Some v)
      | None \<Rightarrow>
          map_option nativeFunctionText
            (map_of (map (\<lambda>(k, f). (ustr k, f)) objectPrototypeMembers) name))"

subsection \<open>Character classes, numbers and code points\<close>

definition decimalDigit :: "jchar \<Rightarrow> bool" where
  "decimalDigit c \<longleftrightarrow> 0x30 \<le> charCode c \<and> charCode c \<le> 0x39"

definition hexDigit :: "jchar \<Rightarrow> bool" where
  "hexDigit c \<longleftrightarrow> decimalDigit c \<or> (0x41 \<le> charCode c \<and> charCode c \<le> 0x46)
                   \<or> (0x61 \<le> charCode c \<and> charCode c \<le> 0x66)"

definition asciiLetter :: "jchar \<Rightarrow> bool" where
  "asciiLetter c \<longleftrightarrow> (0x41 \<le> charCode c \<and> charCode c \<le> 0x5A)
                      \<or> (0x61 \<le> charCode c \<and> charCode c \<le> 0x7A)"

definition letterOrDigit :: "jchar \<Rightarrow> bool" where
  "letterOrDigit c \<longleftrightarrow> asciiLetter c \<or> decimalDigit c"

definition digitValue :: "jchar \<Rightarrow> int" where
  "digitValue c = (if decimalDigit c then charCode c - 0x30
                   else if 0x61 \<le> charCode c then charCode c - 0x57
                   else charCode c - 0x37)"

text \<open>
  \<^verbatim>\<open>parseInt(s, radix)\<close> on a string that a regular expression has checked to consist of digits
  of that radix. The result is compared with \<^verbatim>\<open>0x10FFFF\<close> only (or is below 256), so the
  rounding of a long digit string to a double makes no difference and the exact integer is used.
\<close>

definition parseInt :: "jstring \<Rightarrow> int \<Rightarrow> int" where
  "parseInt s radix = foldl (\<lambda>acc c. acc * radix + digitValue c) 0 s"

definition fromCharCode :: "int \<Rightarrow> jstring" where
  "fromCharCode n = [word_of_int n]"

text \<open>\<^verbatim>\<open>String.fromCodePoint\<close> throws a \<^verbatim>\<open>RangeError\<close> (\<open>None\<close>) above \<^verbatim>\<open>0x10FFFF\<close>.\<close>

definition fromCodePoint :: "int \<Rightarrow> jstring option" where
  "fromCodePoint cp =
     (if cp < 0 \<or> 0x10FFFF < cp then None
      else if cp \<le> 0xFFFF then Some [word_of_int cp]
      else Some [word_of_int (0xD800 + (cp - 0x10000) div 0x400),
                 word_of_int (0xDC00 + (cp - 0x10000) mod 0x400)])"

definition hexUpperChar :: "nat \<Rightarrow> char" where
  "hexUpperChar d = (if d < 10 then char_of (48 + d) else char_of (55 + d))"

text \<open>\<^verbatim>\<open>charCode.toString(16).toUpperCase()\<close> and the decimal text of a char code.\<close>

definition toHexUpper :: "nat \<Rightarrow> jstring" where
  "toHexUpper n = map (\<lambda>d. ch (hexUpperChar d)) (digits 16 n)"

definition toDecimal :: "nat \<Rightarrow> jstring" where
  "toDecimal n = map (\<lambda>d. ch (decimalChar d)) (digits 10 n)"

text \<open>
  \<^verbatim>\<open>TextEncoder.encode\<close>: the UTF-8 bytes of a string; a surrogate without its partner is
  encoded as U+FFFD.
\<close>

fun stringToUtf8Bytes :: "jstring \<Rightarrow> nat list" where
  "stringToUtf8Bytes [] = []"
| "stringToUtf8Bytes (c # cs) =
     (let u = unat c in
      if u < 0x80 then u # stringToUtf8Bytes cs
      else if u < 0x800 then [0xC0 + u div 0x40, 0x80 + u mod 0x40] @ stringToUtf8Bytes cs
      else if u < 0xD800 \<or> 0xE000 \<le> u
      then [0xE0 + u div 0x1000, 0x80 + (u div 0x40) mod 0x40, 0x80 + u mod 0x40]
           @ stringToUtf8Bytes cs
      else if u < 0xDC00 \<and> cs \<noteq> [] \<and> 0xDC00 \<le> unat (hd cs) \<and> unat (hd cs) < 0xE000
      then (let cp = 0x10000 + (u - 0xD800) * 0x400 + (unat (hd cs) - 0xDC00) in
            [0xF0 + cp div 0x40000, 0x80 + (cp div 0x1000) mod 0x40,
             0x80 + (cp div 0x40) mod 0x40, 0x80 + cp mod 0x40])
           @ stringToUtf8Bytes (tl cs)
      else [0xEF, 0xBF, 0xBD] @ stringToUtf8Bytes cs)"

subsection \<open>parsePath\<close>

text \<open>
  The regular expressions of the parser, applied to the rest of the path string. Each gives the
  captured group and the length of the whole match. No class contains the semicolon, so the
  greedy match of the class is the only candidate.
\<close>

definition upToSemicolon :: "(jchar \<Rightarrow> bool) \<Rightarrow> jstring \<Rightarrow> jstring option" where
  "upToSemicolon cls s =
     (case dropWhile cls s of
        [] \<Rightarrow> None
      | c # _ \<Rightarrow> if c = ch CHR '';'' then Some (takeWhile cls s) else None)"

text \<open>\<^verbatim>\<open>/^&([a-zA-Z][a-zA-Z0-9]*);/\<close>\<close>

definition matchNamedEntity :: "jstring \<Rightarrow> (jstring \<times> nat) option" where
  "matchNamedEntity remaining =
     (case remaining of
        a # l # s \<Rightarrow>
          if a = ch CHR ''&'' \<and> asciiLetter l
          then map_option (\<lambda>t. (l # t, 3 + length t)) (upToSemicolon letterOrDigit s)
          else None
      | _ \<Rightarrow> None)"

text \<open>\<^verbatim>\<open>/^&#x([0-9a-fA-F]+);/\<close>\<close>

definition matchHexEntity :: "jstring \<Rightarrow> (jstring \<times> nat) option" where
  "matchHexEntity remaining =
     (case remaining of
        a # h # x # s \<Rightarrow>
          if a = ch CHR ''&'' \<and> h = ch CHR ''#'' \<and> x = ch CHR ''x''
          then (case upToSemicolon hexDigit s of
                  Some t \<Rightarrow> if t \<noteq> [] then Some (t, 4 + length t) else None
                | None \<Rightarrow> None)
          else None
      | _ \<Rightarrow> None)"

text \<open>\<^verbatim>\<open>/^&#([0-9]+);/\<close>\<close>

definition matchDecimalEntity :: "jstring \<Rightarrow> (jstring \<times> nat) option" where
  "matchDecimalEntity remaining =
     (case remaining of
        a # h # s \<Rightarrow>
          if a = ch CHR ''&'' \<and> h = ch CHR ''#''
          then (case upToSemicolon decimalDigit s of
                  Some t \<Rightarrow> if t \<noteq> [] then Some (t, 3 + length t) else None
                | None \<Rightarrow> None)
          else None
      | _ \<Rightarrow> None)"

text \<open>\<^verbatim>\<open>/^&u([0-9a-fA-F]{2,8});/\<close>\<close>

definition matchCustomEntity :: "jstring \<Rightarrow> (jstring \<times> nat) option" where
  "matchCustomEntity remaining =
     (case remaining of
        a # u # s \<Rightarrow>
          if a = ch CHR ''&'' \<and> u = ch CHR ''u''
          then (case upToSemicolon hexDigit s of
                  Some t \<Rightarrow> if 2 \<le> length t \<and> length t \<le> 8 then Some (t, 3 + length t)
                            else None
                | None \<Rightarrow> None)
          else None
      | _ \<Rightarrow> None)"

text \<open>
  One turn of the \<^verbatim>\<open>while\<close> loop at position \<open>i\<close>, as a function of the rest of the path
  string from \<open>i\<close> on (never empty): either text is appended to the current component and \<open>i\<close>
  advances by the given number of code units, or the current component is closed and \<open>i\<close>
  advances by one.
\<close>

datatype step = Append jstring nat | Separator

definition scanBackslash :: "jstring \<Rightarrow> step" where
  "scanBackslash s =
     (if length s \<le> 1 then Append [hd s] 1
      else
        let nextChar = s ! 1 in
        if nextChar = ch CHR ''n'' then Append [0x0A] 2
        else if nextChar = ch CHR ''t'' then Append [0x09] 2
        else if nextChar = ch CHR ''r'' then Append [0x0D] 2
        else if nextChar = ch (CHR 0x5C) then Append [ch (CHR 0x5C)] 2
        else if nextChar = ch CHR ''/'' then Append [ch CHR ''/''] 2
        else if nextChar = ch CHR ''x'' then
          (if 3 < length s then
             (let hexStr = take 2 (drop 2 s) in
              if list_all hexDigit hexStr
              then Append (fromCharCode (parseInt hexStr 16)) 4
              else Append [nextChar] 2)
           else Append [nextChar] 2)
        else Append [nextChar] 2)"

definition orElse :: "'a option \<Rightarrow> 'a option \<Rightarrow> 'a option" where
  "orElse a b = (case a of Some x \<Rightarrow> Some x | None \<Rightarrow> b)"

definition codePointEntity :: "(jstring \<times> nat) option \<Rightarrow> int \<Rightarrow> step option" where
  "codePointEntity entityMatch radix =
     (case entityMatch of
        None \<Rightarrow> None
      | Some (t, n) \<Rightarrow>
          (case fromCodePoint (parseInt t radix) of
             None \<Rightarrow> None
           | Some s \<Rightarrow> Some (Append s n)))"

definition namedEntity :: "PathParser \<Rightarrow> jstring \<Rightarrow> step option" where
  "namedEntity P remaining =
     (case matchNamedEntity remaining of
        None \<Rightarrow> None
      | Some (name, n) \<Rightarrow>
          (case entityText P name of
             None \<Rightarrow> None
           | Some v \<Rightarrow> Some (Append v n)))"

definition numericEntity :: "jstring \<Rightarrow> step option" where
  "numericEntity remaining =
     orElse (codePointEntity (matchHexEntity remaining) 16)
            (codePointEntity (matchDecimalEntity remaining) 10)"

definition customEntity :: "jstring \<Rightarrow> step option" where
  "customEntity remaining = codePointEntity (matchCustomEntity remaining) 16"

definition scanEntity :: "PathParser \<Rightarrow> jstring \<Rightarrow> step" where
  "scanEntity P remaining =
     (case orElse (if has P HTML_NAMED_ENTITIES then namedEntity P remaining else None)
         (orElse (if has P HTML_NUMERIC_ENTITIES then numericEntity remaining else None)
                 (if has P CUSTOM_UNICODE_ENTITIES then customEntity remaining else None)) of
        Some matched \<Rightarrow> matched
      | None \<Rightarrow> Append [hd remaining] 1)"

definition scanPercent :: "jstring \<Rightarrow> step" where
  "scanPercent s =
     (if 2 < length s then
        (let hexStr = take 2 (drop 1 s) in
         if list_all hexDigit hexStr
         then Append (fromCharCode (parseInt hexStr 16)) 3
         else Append [hd s] 1)
      else Append [hd s] 1)"

definition scanStep :: "PathParser \<Rightarrow> jstring \<Rightarrow> step" where
  "scanStep P s =
     (let char = hd s in
      if char = ch (CHR 0x5C) \<and> has P BACKSLASH_ESCAPES then scanBackslash s
      else if char = ch CHR ''&'' \<and> (has P HTML_NAMED_ENTITIES \<or> has P HTML_NUMERIC_ENTITIES
                                      \<or> has P CUSTOM_UNICODE_ENTITIES)
      then scanEntity P s
      else if char = ch CHR ''%'' \<and> has P URL_ENCODING then scanPercent s
      else if char = ch CHR ''/'' then Separator
      else Append [char] 1)"

text \<open>
  The loop, on the rest of the path string. Every step advances by at least one code unit:
  \<open>drop (n - 1) rest\<close> is the rest after advancing by \<open>n\<close> from the head of \<open>c # rest\<close>.
\<close>

fun parseLoop :: "PathParser \<Rightarrow> jstring \<Rightarrow> jstring list \<Rightarrow> jstring \<Rightarrow> jstring list" where
  "parseLoop P [] components currentComponent = components @ [currentComponent]"
| "parseLoop P (c # rest) components currentComponent =
     (case scanStep P (c # rest) of
        Append s n \<Rightarrow> parseLoop P (drop (n - 1) rest) components (currentComponent @ s)
      | Separator \<Rightarrow> parseLoop P rest (components @ [currentComponent]) [])"

definition parsePath :: "PathParser \<Rightarrow> jstring \<Rightarrow> jstring list" where
  "parsePath P s =
     (let components = parseLoop P s [] [] in
      filter (\<lambda>component. if component = [] then length components = 1 else True) components)"

subsection \<open>createPath\<close>

text \<open>The first enabled scheme of a priority list, else the character itself.\<close>

fun firstEnabled :: "PathParser \<Rightarrow> (EscapeMethod \<times> jstring) list \<Rightarrow> jstring \<Rightarrow> jstring" where
  "firstEnabled P [] literal = literal"
| "firstEnabled P ((m, escaped) # others) literal =
     (if has P m then escaped else firstEnabled P others literal)"

definition hex2 :: "nat \<Rightarrow> jstring" where
  "hex2 n = padStart 2 (ch CHR ''0'') (toHexUpper n)"

definition encodeChar :: "PathParser \<Rightarrow> jchar \<Rightarrow> jstring" where
  "encodeChar P char =
     (if char = ch CHR ''/'' then
        firstEnabled P [(BACKSLASH_ESCAPES, [ch (CHR 0x5C), ch CHR ''/'']),
                        (URL_ENCODING, ustr ''%2F''),
                        (HTML_NUMERIC_ENTITIES, ustr ''&#47;'')] [char]
      else if char = ch (CHR 0x5C) then
        firstEnabled P [(BACKSLASH_ESCAPES, [ch (CHR 0x5C), ch (CHR 0x5C)]),
                        (URL_ENCODING, ustr ''%5C''),
                        (HTML_NUMERIC_ENTITIES, ustr ''&#92;'')] [char]
      else if char = 0x0A then
        firstEnabled P [(BACKSLASH_ESCAPES, [ch (CHR 0x5C), ch CHR ''n'']),
                        (URL_ENCODING, ustr ''%0A''),
                        (HTML_NUMERIC_ENTITIES, ustr ''&#10;'')] [char]
      else if char = 0x09 then
        firstEnabled P [(BACKSLASH_ESCAPES, [ch (CHR 0x5C), ch CHR ''t'']),
                        (URL_ENCODING, ustr ''%09''),
                        (HTML_NUMERIC_ENTITIES, ustr ''&#9;'')] [char]
      else if char = 0x0D then
        firstEnabled P [(BACKSLASH_ESCAPES, [ch (CHR 0x5C), ch CHR ''r'']),
                        (URL_ENCODING, ustr ''%0D''),
                        (HTML_NUMERIC_ENTITIES, ustr ''&#13;'')] [char]
      else if char = ch CHR ''%'' then
        firstEnabled P [(URL_ENCODING, ustr ''%25''),
                        (HTML_NUMERIC_ENTITIES, ustr ''&#37;''),
                        (BACKSLASH_ESCAPES, [ch (CHR 0x5C), ch CHR ''%''])] [char]
      else if char = ch CHR ''&'' then
        firstEnabled P [(HTML_NAMED_ENTITIES, ustr ''&amp;''),
                        (URL_ENCODING, ustr ''%26''),
                        (HTML_NUMERIC_ENTITIES, ustr ''&#38;''),
                        (BACKSLASH_ESCAPES, [ch (CHR 0x5C), ch CHR ''&''])] [char]
      else if charCode char < 32 \<or> 126 < charCode char then
        (if charCode char \<le> 255 then
           firstEnabled P
             [(URL_ENCODING, ustr ''%'' @ hex2 (unat char)),
              (BACKSLASH_ESCAPES, [ch (CHR 0x5C), ch CHR ''x''] @ hex2 (unat char)),
              (HTML_NUMERIC_ENTITIES, ustr ''&#'' @ toDecimal (unat char) @ ustr '';''),
              (CUSTOM_UNICODE_ENTITIES, ustr ''&u'' @ hex2 (unat char) @ ustr '';'')] [char]
         else
           firstEnabled P
             [(HTML_NUMERIC_ENTITIES, ustr ''&#x'' @ toHexUpper (unat char) @ ustr '';''),
              (CUSTOM_UNICODE_ENTITIES,
                 ustr ''&u'' @ padStart 4 (ch CHR ''0'') (toHexUpper (unat char)) @ ustr '';''),
              (URL_ENCODING,
                 concat (map (\<lambda>byte. ustr ''%'' @ hex2 byte) (stringToUtf8Bytes [char])))]
             [char])
      else [char])"

definition encodePathComponent :: "PathParser \<Rightarrow> jstring \<Rightarrow> jstring" where
  "encodePathComponent P component =
     foldl (\<lambda>result char. result @ encodeChar P char) [] component"

definition createPath :: "PathParser \<Rightarrow> jstring list \<Rightarrow> jstring" where
  "createPath P components =
     (let filteredComponents = filter (\<lambda>component. component \<noteq> []) components in
      if length filteredComponents = 0 then []
      else joinWith (ustr ''/'') (map (encodePathComponent P) filteredComponents))"

section \<open>Notions used to state the properties\<close>

text \<open>The world after one more event in its trace.\<close>

definition logged :: "kv_event \<Rightarrow> world \<Rightarrow> world" where
  "logged ev w = w\<lparr>trace := trace w @ [ev]\<rparr>"

text \<open>
  The contents of a store after the three records of a new node were written in the order of
  \<^verbatim>\<open>createNode\<close>: value, parent pointer, empty children list.
\<close>

definition afterNodeRecords ::
  "KVTreeStorage \<Rightarrow> string list \<Rightarrow> jsval \<Rightarrow> (string \<Rightarrow> string option) \<Rightarrow> (string \<Rightarrow> string option)" where
  "afterNodeRecords S pathArray v st =
     st(createStorageKey S pathArray ''value'' \<mapsto> kv_coerce (serializeValue S v),
        createStorageKey S pathArray ''parent'' \<mapsto>
          JSON_stringify S (JArr (map JStr (butlast pathArray))),
        createStorageKey S pathArray ''children'' \<mapsto> JSON_stringify S (JArr []))"

text \<open>
  The snapshot of a node that the contents of a store determine: present when both records
  are, and parse.
\<close>

definition snapshot :: "KVTreeStorage \<Rightarrow> (string \<Rightarrow> string option) \<Rightarrow> string list \<Rightarrow> node option" where
  "snapshot S st pathArray =
     (case st (createStorageKey S pathArray ''value'') of
        None \<Rightarrow> None
      | Some sv \<Rightarrow>
          (case JSON_parse S sv of
             Inl e \<Rightarrow> None
           | Inr v \<Rightarrow>
               (case st (createStorageKey S pathArray ''children'') of
                  None \<Rightarrow> None
                | Some sc \<Rightarrow>
                    (case JSON_parse S sc of
                       Inl e \<Rightarrow> None
                     | Inr c \<Rightarrow>
                         Some \<lparr> node_path = pathArray, node_value = v,
                                node_children = orEmptyArray c,
                                hasChildren = lengthPositive (orEmptyArray c) \<rparr>))))"



text \<open>
  What a traversal from \<open>start\<close> at depth \<open>d0\<close> records: every entry is the snapshot the
  store gives for its path, lies under \<open>start\<close> at the depth of its path, and, unless it is
  \<open>start\<close> itself, is the child of a recorded entry at which the visitor did not return
  \<^verbatim>\<open>false\<close>. \<open>childrenVisited\<close> is the same for the entries strictly below \<open>start\<close>, a child
  of \<open>start\<close> needing no recorded parent.
\<close>

definition orderlyVisited ::
  "KVTreeStorage \<Rightarrow> (string \<Rightarrow> string option) \<Rightarrow> (node \<Rightarrow> nat \<Rightarrow> jsval) \<Rightarrow> string list \<Rightarrow> nat \<Rightarrow>
   (node \<times> nat) list \<Rightarrow> bool" where
  "orderlyVisited S st decide start d0 visited \<longleftrightarrow>
     (\<forall>e \<in> set visited.
        snapshot S st (node_path (fst e)) = Some (fst e) \<and>
        (\<exists>ks. node_path (fst e) = start @ ks) \<and>
        snd e = d0 + (length (node_path (fst e)) - length start) \<and>
        (node_path (fst e) = start \<or>
         (\<exists>m \<in> set visited. \<exists>k. node_path (fst e) = node_path (fst m) @ [k] \<and>
                                decide (fst m) (snd m) \<noteq> JBool False)))"

definition childrenVisited ::
  "KVTreeStorage \<Rightarrow> (string \<Rightarrow> string option) \<Rightarrow> (node \<Rightarrow> nat \<Rightarrow> jsval) \<Rightarrow> string list \<Rightarrow> nat \<Rightarrow>
   (node \<times> nat) list \<Rightarrow> bool" where
  "childrenVisited S st decide start d0 visited \<longleftrightarrow>
     (\<forall>e \<in> set visited.
        snapshot S st (node_path (fst e)) = Some (fst e) \<and>
        (\<exists>k ks. node_path (fst e) = start @ k # ks) \<and>
        snd e = d0 + (length (node_path (fst e)) - length start) \<and>
        ((\<exists>k. node_path (fst e) = start @ [k]) \<or>
         (\<exists>m \<in> set visited. \<exists>k. node_path (fst e) = node_path (fst m) @ [k] \<and>
                                decide (fst m) (snd m) \<noteq> JBool False)))"


text \<open>
  A tree of keys, and the store contents that hold it below a parent path: the children list
  read for each node is the list of the keys of its children. Reading fails for a record that
  is absent, does not parse or is not iterable, and \<^verbatim>\<open>collectDescendants\<close> then takes the
  node to have no children.
\<close>

datatype ktree = KNode (nodeKey: string) (subtrees: "ktree list")

definition childKeys :: "KVTreeStorage \<Rightarrow> (string \<Rightarrow> string option) \<Rightarrow> string list \<Rightarrow> string list" where
  "childKeys S st pathArray =
     (case st (createStorageKey S pathArray ''children'') of
        None \<Rightarrow> []
      | Some sc \<Rightarrow>
          (case JSON_parse S sc of
             Inl e \<Rightarrow> []
           | Inr parsed \<Rightarrow>
               (case forOf ''children'' (orEmptyArray parsed) of
                  Inl e \<Rightarrow> []
                | Inr keys \<Rightarrow> keys)))"

fun holdsTree :: "KVTreeStorage \<Rightarrow> (string \<Rightarrow> string option) \<Rightarrow> string list \<Rightarrow> ktree \<Rightarrow> bool" where
  "holdsTree S st parentPath (KNode k ts) \<longleftrightarrow>
     childKeys S st (parentPath @ [k]) = map nodeKey ts \<and>
     (\<forall>t \<in> set ts. holdsTree S st (parentPath @ [k]) t)"

text \<open>
  The paths of the descendants of a node in breadth-first order: those at depth 1 below it,
  then those at depth 2, and so on, each level from left to right.
\<close>

fun pathsAtDepth :: "nat \<Rightarrow> string list \<Rightarrow> ktree \<Rightarrow> string list list" where
  "pathsAtDepth 0 parentPath t = [parentPath @ [nodeKey t]]"
| "pathsAtDepth (Suc d) parentPath t =
     concat (map (pathsAtDepth d (parentPath @ [nodeKey t])) (subtrees t))"

fun height :: "ktree \<Rightarrow> nat" where
  "height (KNode k ts) = (if ts = [] then 0 else Suc (Max (set (map height ts))))"

fun treeSize :: "ktree \<Rightarrow> nat" where
  "treeSize (KNode k ts) = Suc (sum_list (map treeSize ts))"

definition levelOrder :: "string list \<Rightarrow> ktree \<Rightarrow> string list list" where
  "levelOrder parentPath t = concat (map (\<lambda>d. pathsAtDepth d parentPath t) [1 ..< Suc (height t)])"

text \<open>The keys \<^verbatim>\<open>deleteSingleNode\<close> deletes, in its order, and a store without some keys.\<close>

definition nodeKeys :: "KVTreeStorage \<Rightarrow> string list \<Rightarrow> string list" where
  "nodeKeys S pathArray =
     [createStorageKey S pathArray ''value'', createStorageKey S pathArray ''children'']
     @ (if pathArray \<noteq> [] then [createStorageKey S pathArray ''parent''] else [])"

definition without :: "(string \<Rightarrow> string option) \<Rightarrow> string list \<Rightarrow> (string \<Rightarrow> string option)" where
  "without st keys = foldl (\<lambda>s k. s(k := None)) st keys"

text \<open>The world after more events in its trace; a node of a level with the path of its parent.\<close>

definition traced :: "kv_event list \<Rightarrow> world \<Rightarrow> world" where
  "traced evs w = w\<lparr>trace := trace w @ evs\<rparr>"

definition itemPath :: "string list \<times> ktree \<Rightarrow> string list" where
  "itemPath it = fst it @ [nodeKey (snd it)]"

definition itemKids :: "string list \<times> ktree \<Rightarrow> (string list \<times> ktree) list" where
  "itemKids it = map (\<lambda>c. (itemPath it, c)) (subtrees (snd it))"

text \<open>The keys \<^verbatim>\<open>deleteNode\<close> deletes for a subtree, in its order: leaves before ancestors.\<close>

definition deletedKeys :: "KVTreeStorage \<Rightarrow> string list \<Rightarrow> ktree \<Rightarrow> string list" where
  "deletedKeys S parentPath t =
     concat (map (nodeKeys S) (rev ((parentPath @ [nodeKey t]) # levelOrder parentPath t)))"



subsection \<open>Notions for the path codec\<close>

text \<open>
  The characters the parser reacts to under a configuration: the separator, and the first
  character of each enabled escape scheme.
\<close>

definition hazardous :: "PathParser \<Rightarrow> jchar \<Rightarrow> bool" where
  "hazardous P c \<longleftrightarrow>
     c = ch CHR ''/'' \<or>
     (c = ch (CHR 0x5C) \<and> has P BACKSLASH_ESCAPES) \<or>
     (c = ch CHR ''&'' \<and> (has P HTML_NAMED_ENTITIES \<or> has P HTML_NUMERIC_ENTITIES
                            \<or> has P CUSTOM_UNICODE_ENTITIES)) \<or>
     (c = ch CHR ''%'' \<and> has P URL_ENCODING)"

text \<open>
  A character requires an escape scheme that is not enabled when the parser reacts to it and
  the encoder, finding none of the schemes it would use for it enabled, writes it as it is.
\<close>

definition requiresUnavailableEscape :: "PathParser \<Rightarrow> jchar \<Rightarrow> bool" where
  "requiresUnavailableEscape P c \<longleftrightarrow> hazardous P c \<and> encodeChar P c = [c]"

text \<open>
  A character above U+00FF that the encoder writes as the percent-encoded bytes of its UTF-8
  form: neither entity scheme for code points is enabled, URL encoding is.
\<close>

definition utf8PercentEncoded :: "PathParser \<Rightarrow> jchar \<Rightarrow> bool" where
  "utf8PercentEncoded P c \<longleftrightarrow>
     255 < charCode c \<and> \<not> has P HTML_NUMERIC_ENTITIES \<and> \<not> has P CUSTOM_UNICODE_ENTITIES
     \<and> has P URL_ENCODING"

definition roundTrips :: "PathParser \<Rightarrow> jchar \<Rightarrow> bool" where
  "roundTrips P c \<longleftrightarrow> \<not> requiresUnavailableEscape P c \<and> \<not> utf8PercentEncoded P c"

text \<open>What \<open>createPath\<close> keeps of a segment sequence, as \<open>parsePath\<close> gives it back.\<close>

definition nonEmptySegments :: "jstring list \<Rightarrow> jstring list" where
  "nonEmptySegments S = (if filter (\<lambda>s. s \<noteq> []) S = [] then [[]] else filter (\<lambda>s. s \<noteq> []) S)"

text \<open>The parser decodes the text \<open>tok\<close>, wherever it stands, to \<open>s\<close>.\<close>

definition decodesTo :: "PathParser \<Rightarrow> jstring \<Rightarrow> jstring \<Rightarrow> bool" where
  "decodesTo P tok s \<longleftrightarrow>
     (\<forall>rest components current.
        parseLoop P (tok @ rest) components current = parseLoop P rest components (current @ s))"

section \<open>A reference platform for closed examples\<close>

text \<open>
  The theorems below hold for every digest, serializer and parser. Closed examples run the
  model on a reference platform: \<open>jsonText\<close> writes a value as \<^verbatim>\<open>JSON.stringify\<close> does
  (properties in enumeration order, \<^verbatim>\<open>undefined\<close> properties left out, \<^verbatim>\<open>undefined\<close> array
  elements as \<^verbatim>\<open>null\<close>), \<open>refParse\<close> inverts it on the values an example names, and
  \<open>refDigest\<close> is an injective stand-in for SHA-256 (the bytes of the text itself).
\<close>

definition jsonQuoteChar :: "char \<Rightarrow> string" where
  "jsonQuoteChar c =
     (if c = CHR 0x22 then [CHR 0x5C, CHR 0x22]
      else if c = CHR 0x5C then [CHR 0x5C, CHR 0x5C]
      else if c = CHR 0x08 then [CHR 0x5C, CHR ''b'']
      else if c = CHR 0x09 then [CHR 0x5C, CHR ''t'']
      else if c = CHR 0x0A then [CHR 0x5C, CHR ''n'']
      else if c = CHR 0x0C then [CHR 0x5C, CHR ''f'']
      else if c = CHR 0x0D then [CHR 0x5C, CHR ''r'']
      else if (of_char c :: nat) < 32
      then [CHR 0x5C, CHR ''u''] @ padStart 4 (CHR ''0'') (map hexLowerChar (digits 16 (of_char c)))
      else [c])"

definition jsonQuote :: "string \<Rightarrow> string" where
  "jsonQuote s = [CHR 0x22] @ concat (map jsonQuoteChar s) @ [CHR 0x22]"

fun jsonText :: "jsval \<Rightarrow> string" where
  "jsonText JUndefined = ''null''"
| "jsonText JNull = ''null''"
| "jsonText (JBool b) = (if b then ''true'' else ''false'')"
| "jsonText (JNum n) = showInt n"
| "jsonText (JStr s) = jsonQuote s"
| "jsonText (JArr xs) = ''['' @ joinWith '','' (map jsonText xs) @ '']''"
| "jsonText (JObj obj) =
     ''{'' @ joinWith '','' (map (\<lambda>kv. jsonQuote (fst kv) @ '':'' @ jsonText (snd kv))
                              (filter (\<lambda>kv. snd kv \<noteq> JUndefined) obj)) @ ''}''"

definition refParse :: "jsval list \<Rightarrow> string \<Rightarrow> jsError + jsval" where
  "refParse known text =
     (case find (\<lambda>v. jsonText v = text) known of
        Some v \<Rightarrow> Inr v
      | None \<Rightarrow> Inl (JsError None ''SyntaxError'' ''Unexpected token''))"

definition refDigest :: "string \<Rightarrow> 8 word list" where
  "refDigest text = map of_char text"

definition refStorage :: "jsval list \<Rightarrow> KVTreeStorage" where
  "refStorage known =
     newKVTreeStorage refDigest jsonText (refParse known)
       \<lparr>opt_prefix = None, opt_maxRetries = None, opt_baseRetryDelay = None\<rparr>"

definition rateLimited :: jsError where
  "rateLimited = JsError (Some 429) ''Error'' ''rate limited''"

text \<open>
  The example tree: the root with the child \<^verbatim>\<open>a\<close> (value \<^verbatim>\<open>"v"\<close>), which has the child
  \<^verbatim>\<open>b\<close> (value \<^verbatim>\<open>7\<close>); the store holds the three records of each node as the engine
  writes them. \<open>rootWorld\<close> holds the root alone.
\<close>

definition exampleStorage :: KVTreeStorage where
  "exampleStorage =
     refStorage [JNull, JStr ''v'', JNum 7, JArr [], JArr [JStr ''a''], JArr [JStr ''b''],
                 JArr [JStr ''z''], JArr [JStr ''a'', JStr ''z'']]"

definition record3 :: "string list \<Rightarrow> jsval \<Rightarrow> string list \<Rightarrow> (string \<times> string) list" where
  "record3 pathArray v keys =
     [(createStorageKey exampleStorage pathArray ''value'', jsonText v),
      (createStorageKey exampleStorage pathArray ''children'', jsonText (JArr (map JStr keys)))]
     @ (if pathArray = [] then []
        else [(createStorageKey exampleStorage pathArray ''parent'',
               jsonText (JArr (map JStr (butlast pathArray))))])"

definition emptyWorld :: world where
  "emptyWorld = \<lparr>store = Map.empty, faults = [], trace = []\<rparr>"

definition rootWorld :: world where
  "rootWorld = \<lparr>store = map_of (record3 [] JNull []), faults = [], trace = []\<rparr>"

definition exampleWorld :: world where
  "exampleWorld =
     \<lparr>store = map_of (record3 [] JNull [''a''] @ record3 [''a''] (JStr ''v'') [''b'']
                      @ record3 [''a'', ''b''] (JNum 7) []),
      faults = [], trace = []\<rparr>"



section \<open>Properties\<close>


subsection \<open>Calls on a store that rejects nothing\<close>

lemma logged_simps [simp]:
  "faults (logged ev w) = faults w" "store (logged ev w) = store w"
  "trace (logged ev w) = trace w @ [ev]"
  by (simp_all add: logged_def)

lemma kv_called_ok: "faults w = [] \<Longrightarrow> kv_called ev w = logged ev w"
  by (simp add: kv_called_def logged_def)

lemma kv_get_ok: "faults w = [] \<Longrightarrow> kv_get key w = (Inr (store w key), logged (KvGet key) w)"
  by (simp add: kv_get_def kv_called_ok)

lemma kv_put_ok:
  "faults w = [] \<Longrightarrow>
   kv_put key payload w =
     (Inr (), logged (KvPut key payload) (w\<lparr>store := (store w)(key \<mapsto> kv_coerce payload)\<rparr>))"
  by (simp add: kv_put_def kv_called_ok)

lemma kv_delete_ok:
  "faults w = [] \<Longrightarrow>
   kv_delete key w = (Inr (), logged (KvDelete key) (w\<lparr>store := (store w)(key := None)\<rparr>))"
  by (simp add: kv_delete_def kv_called_ok)

lemma withRetry_first_success:
  "0 < maxRetries S \<Longrightarrow> operation w = (Inr a, w') \<Longrightarrow> withRetry S operation ctx w = (Inr a, w')"
  by (simp add: withRetry_def withRetryFrom.simps)

lemma withRetry_kv_get_ok:
  "faults w = [] \<Longrightarrow> 0 < maxRetries S \<Longrightarrow>
   withRetry S (kv_get key) ctx w = (Inr (store w key), logged (KvGet key) w)"
  by (simp add: withRetry_first_success kv_get_ok)

lemma withRetry_kv_put_ok:
  "faults w = [] \<Longrightarrow> 0 < maxRetries S \<Longrightarrow>
   withRetry S (kv_put key payload) ctx w =
     (Inr (), logged (KvPut key payload) (w\<lparr>store := (store w)(key \<mapsto> kv_coerce payload)\<rparr>))"
  by (simp add: withRetry_first_success kv_put_ok)

lemma withRetry_kv_delete_ok:
  "faults w = [] \<Longrightarrow> 0 < maxRetries S \<Longrightarrow>
   withRetry S (kv_delete key) ctx w =
     (Inr (), logged (KvDelete key) (w\<lparr>store := (store w)(key := None)\<rparr>))"
  by (simp add: withRetry_first_success kv_delete_ok)

lemma serializeValue_JArr [simp]: "serializeValue S (JArr xs) = Some (JSON_stringify S (JArr xs))"
  by (simp add: serializeValue_def)

lemma maxRetries_exampleStorage: "0 < maxRetries exampleStorage"
  by (simp add: exampleStorage_def refStorage_def newKVTreeStorage_def orInt_def)

subsection \<open>nodeExists\<close>

lemma nodeExists_eq:
  "nodeExists S pathArray w =
     (Inr (case fst (kv_get (createStorageKey S pathArray ''value'') w) of
             Inr (Some v) \<Rightarrow> True
           | Inr None \<Rightarrow> False
           | Inl error \<Rightarrow> False),
      snd (kv_get (createStorageKey S pathArray ''value'') w))"
  by (simp add: nodeExists_def tryCatch_def bindE_def returnE_def
           split: prod.splits sum.splits option.splits)

lemma nodeExists_ok:
  "faults w = [] \<Longrightarrow>
   nodeExists S p w = (Inr (store w (createStorageKey S p ''value'') \<noteq> None),
                       logged (KvGet (createStorageKey S p ''value'')) w)"
  by (simp add: nodeExists_def tryCatch_def bindE_def returnE_def kv_get_ok)

text \<open>
  Claim C8. For every path, \<open>nodeExists\<close> never raises: its result is always a boolean
  (\<open>Inr\<close>), which is true exactly when the \<^verbatim>\<open>get\<close> of the path's value record completes
  without error and yields a non-null result, and false both when the record is absent and when
  the retrieval raises any error. This holds in every world, whatever the script of rejections.
\<close>

theorem nodeExists_never_raises:
  "(\<exists>b. fst (nodeExists S pathArray w) = Inr b) \<and>
   fst (nodeExists S pathArray w) =
     Inr (case fst (kv_get (createStorageKey S pathArray ''value'') w) of
            Inr (Some v) \<Rightarrow> True
          | Inr None \<Rightarrow> False
          | Inl error \<Rightarrow> False) \<and>
   snd (nodeExists S pathArray w) = snd (kv_get (createStorageKey S pathArray ''value'') w)"
  by (simp add: nodeExists_eq)

subsection \<open>withRetry\<close>

text \<open>
  Claim C2, at the failing input. The storage has the default \<open>maxRetries = 5\<close> and every
  \<^verbatim>\<open>get\<close> is rejected with a rate-limit error (status 429). \<open>withRetry\<close> makes exactly five
  attempts with four sleeps between them, and then rejects with the store's own error: the
  last iteration rethrows it, so the wrapped error after the loop, which would name the context
  and the number of attempts, is never raised.
\<close>

theorem withRetry_exhausted_raises_unwrapped:
  "withRetry exampleStorage (kv_get ''k'') ''get value for a''
      \<lparr>store = Map.empty, faults = replicate 5 (Some rateLimited), trace = []\<rparr>
   = (Inl rateLimited,
      \<lparr>store = Map.empty, faults = [],
       trace = [KvGet ''k'', Sleep 0, KvGet ''k'', Sleep 1, KvGet ''k'', Sleep 2, KvGet ''k'',
                Sleep 3, KvGet ''k'']\<rparr>) \<and>
   rateLimited \<noteq> Error ''get value for a failed after 5 attempts: rate limited''"
  by (simp add: withRetry_def withRetryFrom.simps exampleStorage_def refStorage_def
      newKVTreeStorage_def orInt_def orString_def kv_get_def kv_called_def sleep_def
      isRetryableError_def rateLimited_def Error_def numeral_eq_Suc)

subsection \<open>Key derivation\<close>

text \<open>
  Claim C4, at the failing input. The paths \<^verbatim>\<open>['a', 'b']\<close> and \<^verbatim>\<open>['a::b']\<close> are distinct,
  but \<open>hashPath\<close> joins the keys with \<^verbatim>\<open>::\<close> and so hashes the same text for both: they
  get the same storage key for every suffix, whatever the digest. The same holds for the
  root path and the path of one empty key.
\<close>

theorem storage_key_collision:
  "[''a'', ''b''] \<noteq> [''a::b''] \<and>
   pathString [''a'', ''b''] = pathString [''a::b''] \<and>
   createStorageKey S [''a'', ''b''] suffix = createStorageKey S [''a::b''] suffix \<and>
   createStorageKey S [] suffix = createStorageKey S [[]] suffix"
  by (simp add: pathString_def createStorageKey_def hashPath_def)

subsection \<open>serializeValue\<close>





subsection \<open>getValue, getChildren, getNode\<close>


lemma getChildren_ok:
  assumes "faults w = []" "0 < maxRetries S"
  shows "getChildren S p w =
     ((case store w (createStorageKey S p ''children'') of
         None \<Rightarrow> Inl (Error (''Node does not exist: '' @ pathText p))
       | Some text \<Rightarrow> (case deserializeValue S (Some text) of Inl e \<Rightarrow> Inl e
                        | Inr parsed \<Rightarrow> Inr (orEmptyArray parsed))),
      logged (KvGet (createStorageKey S p ''children'')) w)"
  using assms
  by (simp add: getChildren_def bindE_def withRetry_kv_get_ok throwE_def liftE_def returnE_def
           split: option.splits sum.splits)




subsection \<open>createNode\<close>

lemma addChildToParent_ok:
  assumes "faults w = []" "0 < maxRetries S"
    and "deserializeValue S (store w (createStorageKey S parentPath ''children'')) = Inr parsed"
    and "orEmptyArray parsed = JArr xs"
  shows "addChildToParent S parentPath childKey w =
     (Inr (),
      if JStr childKey \<in> set xs
      then logged (KvGet (createStorageKey S parentPath ''children'')) w
      else logged (KvPut (createStorageKey S parentPath ''children'')
                     (Some (JSON_stringify S (JArr (xs @ [JStr childKey])))))
             ((logged (KvGet (createStorageKey S parentPath ''children'')) w)
                \<lparr>store := (store w)(createStorageKey S parentPath ''children'' \<mapsto>
                     JSON_stringify S (JArr (xs @ [JStr childKey])))\<rparr>))"
  using assms
  by (simp add: addChildToParent_def Let_def bindE_def withRetry_kv_get_ok liftE_def jsIncludes_def
       jsPush_def withRetry_kv_put_ok returnE_def kv_coerce_def)

lemma createNode_root_exists:
  "fst (nodeExists S [] w) = Inr True \<Longrightarrow>
   createNode S [] v w = (Inl (Error ''Root node already exists''), snd (nodeExists S [] w))"
  by (cases "nodeExists S [] w") (simp add: createNode_def bindE_def throwE_def)

lemma createNode_parent_missing:
  "p \<noteq> [] \<Longrightarrow> fst (nodeExists S (butlast p) w) = Inr False \<Longrightarrow>
   createNode S p v w =
     (Inl (Error (''Parent node does not exist: '' @ pathText (butlast p))),
      snd (nodeExists S (butlast p) w))"
  by (cases "nodeExists S (butlast p) w") (simp add: createNode_def bindE_def throwE_def returnE_def)

lemma createNode_root_ok:
  assumes "faults w = []" "0 < maxRetries S" "store w (createStorageKey S [] ''value'') = None"
  shows "createNode S [] v w =
     (Inr (),
      w\<lparr>store := (store w)(createStorageKey S [] ''value'' \<mapsto> kv_coerce (serializeValue S v),
                          createStorageKey S [] ''children'' \<mapsto> JSON_stringify S (JArr [])),
        trace := trace w @ [KvGet (createStorageKey S [] ''value''),
                            KvPut (createStorageKey S [] ''value'') (serializeValue S v),
                            KvPut (createStorageKey S [] ''children'')
                              (Some (JSON_stringify S (JArr [])))]\<rparr>)"
  using assms
  by (simp add: createNode_def bindE_def nodeExists_ok returnE_def withRetry_first_success
        createNodeBody_def kv_put_ok logged_def kv_coerce_def)

lemma createNode_child_ok:
  assumes "faults w = []" "0 < maxRetries S" "p \<noteq> []"
    and "store w (createStorageKey S (butlast p) ''value'') \<noteq> None"
    and "deserializeValue S (afterNodeRecords S p v (store w)
           (createStorageKey S (butlast p) ''children'')) = Inr parsed"
    and "orEmptyArray parsed = JArr xs"
  shows "createNode S p v w =
     (Inr (),
      w\<lparr>store := (if JStr (last p) \<in> set xs then afterNodeRecords S p v (store w)
                   else (afterNodeRecords S p v (store w))
                          (createStorageKey S (butlast p) ''children'' \<mapsto>
                             JSON_stringify S (JArr (xs @ [JStr (last p)])))),
        trace := trace w @
          [KvGet (createStorageKey S (butlast p) ''value''),
           KvPut (createStorageKey S p ''value'') (serializeValue S v),
           KvPut (createStorageKey S p ''parent'')
             (Some (JSON_stringify S (JArr (map JStr (butlast p))))),
           KvPut (createStorageKey S p ''children'') (Some (JSON_stringify S (JArr []))),
           KvGet (createStorageKey S (butlast p) ''children'')] @
          (if JStr (last p) \<in> set xs then []
           else [KvPut (createStorageKey S (butlast p) ''children'')
                   (Some (JSON_stringify S (JArr (xs @ [JStr (last p)]))))])\<rparr>)"
proof -
  let ?w3 = "logged (KvPut (createStorageKey S p ''children'') (Some (JSON_stringify S (JArr []))))
     ((logged (KvPut (createStorageKey S p ''parent'')
                 (Some (JSON_stringify S (JArr (map JStr (butlast p))))))
        ((logged (KvPut (createStorageKey S p ''value'') (serializeValue S v))
           ((logged (KvGet (createStorageKey S (butlast p) ''value'')) w)
             \<lparr>store := (store w)(createStorageKey S p ''value'' \<mapsto>
                          kv_coerce (serializeValue S v))\<rparr>))
         \<lparr>store := (store w)(createStorageKey S p ''value'' \<mapsto> kv_coerce (serializeValue S v),
                     createStorageKey S p ''parent'' \<mapsto>
                       JSON_stringify S (JArr (map JStr (butlast p))))\<rparr>))
      \<lparr>store := afterNodeRecords S p v (store w)\<rparr>)"
  have f3: "faults ?w3 = []" using assms(1) by simp
  have s3: "store ?w3 = afterNodeRecords S p v (store w)" by simp
  have add: "addChildToParent S (butlast p) (last p) ?w3 =
     (Inr (),
      if JStr (last p) \<in> set xs
      then logged (KvGet (createStorageKey S (butlast p) ''children'')) ?w3
      else logged (KvPut (createStorageKey S (butlast p) ''children'')
                     (Some (JSON_stringify S (JArr (xs @ [JStr (last p)])))))
             ((logged (KvGet (createStorageKey S (butlast p) ''children'')) ?w3)
                \<lparr>store := (store ?w3)(createStorageKey S (butlast p) ''children'' \<mapsto>
                     JSON_stringify S (JArr (xs @ [JStr (last p)])))\<rparr>))"
    using assms(5,6) by (intro addChildToParent_ok[OF f3 assms(2)]) (simp_all only: s3)
  have body: "createNodeBody S p v (logged (KvGet (createStorageKey S (butlast p) ''value'')) w) =
      addChildToParent S (butlast p) (last p) ?w3"
    using assms(1,3)
    by (simp add: createNodeBody_def bindE_def kv_put_ok kv_coerce_def afterNodeRecords_def)
  have wr: "withRetry S (createNodeBody S p v) ctx
              (logged (KvGet (createStorageKey S (butlast p) ''value'')) w) =
            addChildToParent S (butlast p) (last p) ?w3" for ctx
    using withRetry_first_success[OF assms(2), of "createNodeBody S p v" _ "()"]
    by (simp add: body add)
  show ?thesis
    using assms(1-4)
    by (simp add: createNode_def bindE_def nodeExists_ok returnE_def wr add)
qed

text \<open>
  Claim C5. For every path and value, \<open>createNode\<close> fails with \<^verbatim>\<open>Root node already exists\<close>
  when the path is the root and \<open>nodeExists\<close> reports the root, and with
  \<^verbatim>\<open>Parent node does not exist\<close> when the path is not the root and \<open>nodeExists\<close> does not
  report its parent; in both cases the store was only read. Otherwise, on a store that rejects
  no call (and with a positive retry limit), it writes in this order: the value record, then
  for a path other than the root the parent-pointer record, then an empty children record; then
  it reads the parent's children list and, unless the last key of the path is already in it,
  writes the list with that key added at its end.
\<close>

theorem createNode_spec:
  "(fst (nodeExists S [] w) = Inr True \<longrightarrow>
      createNode S [] v w = (Inl (Error ''Root node already exists''), snd (nodeExists S [] w))) \<and>
   (p \<noteq> [] \<and> fst (nodeExists S (butlast p) w) = Inr False \<longrightarrow>
      createNode S p v w =
        (Inl (Error (''Parent node does not exist: '' @ pathText (butlast p))),
         snd (nodeExists S (butlast p) w))) \<and>
   (faults w = [] \<and> 0 < maxRetries S \<and> store w (createStorageKey S [] ''value'') = None \<longrightarrow>
      createNode S [] v w =
        (Inr (),
         w\<lparr>store := (store w)(createStorageKey S [] ''value'' \<mapsto> kv_coerce (serializeValue S v),
                             createStorageKey S [] ''children'' \<mapsto> JSON_stringify S (JArr [])),
           trace := trace w @ [KvGet (createStorageKey S [] ''value''),
                               KvPut (createStorageKey S [] ''value'') (serializeValue S v),
                               KvPut (createStorageKey S [] ''children'')
                                 (Some (JSON_stringify S (JArr [])))]\<rparr>)) \<and>
   (faults w = [] \<and> 0 < maxRetries S \<and> p \<noteq> [] \<and>
    store w (createStorageKey S (butlast p) ''value'') \<noteq> None \<and>
    deserializeValue S (afterNodeRecords S p v (store w)
       (createStorageKey S (butlast p) ''children'')) = Inr parsed \<and>
    orEmptyArray parsed = JArr xs \<longrightarrow>
      createNode S p v w =
        (Inr (),
         w\<lparr>store := (if JStr (last p) \<in> set xs then afterNodeRecords S p v (store w)
                      else (afterNodeRecords S p v (store w))
                             (createStorageKey S (butlast p) ''children'' \<mapsto>
                                JSON_stringify S (JArr (xs @ [JStr (last p)])))),
           trace := trace w @
             [KvGet (createStorageKey S (butlast p) ''value''),
              KvPut (createStorageKey S p ''value'') (serializeValue S v),
              KvPut (createStorageKey S p ''parent'')
                (Some (JSON_stringify S (JArr (map JStr (butlast p))))),
              KvPut (createStorageKey S p ''children'') (Some (JSON_stringify S (JArr []))),
              KvGet (createStorageKey S (butlast p) ''children'')] @
             (if JStr (last p) \<in> set xs then []
              else [KvPut (createStorageKey S (butlast p) ''children'')
                      (Some (JSON_stringify S (JArr (xs @ [JStr (last p)]))))])\<rparr>))"
proof (intro conjI impI)
  assume "fst (nodeExists S [] w) = Inr True"
  then show "createNode S [] v w =
      (Inl (Error ''Root node already exists''), snd (nodeExists S [] w))"
    by (rule createNode_root_exists)
next
  assume "p \<noteq> [] \<and> fst (nodeExists S (butlast p) w) = Inr False"
  then show "createNode S p v w =
      (Inl (Error (''Parent node does not exist: '' @ pathText (butlast p))),
       snd (nodeExists S (butlast p) w))"
    by (simp add: createNode_parent_missing)
next
  assume "faults w = [] \<and> 0 < maxRetries S \<and> store w (createStorageKey S [] ''value'') = None"
  then show "createNode S [] v w =
        (Inr (),
         w\<lparr>store := (store w)(createStorageKey S [] ''value'' \<mapsto> kv_coerce (serializeValue S v),
                             createStorageKey S [] ''children'' \<mapsto> JSON_stringify S (JArr [])),
           trace := trace w @ [KvGet (createStorageKey S [] ''value''),
                               KvPut (createStorageKey S [] ''value'') (serializeValue S v),
                               KvPut (createStorageKey S [] ''children'')
                                 (Some (JSON_stringify S (JArr [])))]\<rparr>)"
    by (simp add: createNode_root_ok)
next
  assume h: "faults w = [] \<and> 0 < maxRetries S \<and> p \<noteq> [] \<and>
    store w (createStorageKey S (butlast p) ''value'') \<noteq> None \<and>
    deserializeValue S (afterNodeRecords S p v (store w)
       (createStorageKey S (butlast p) ''children'')) = Inr parsed \<and>
    orEmptyArray parsed = JArr xs"
  then have a1: "faults w = []" and a2: "0 < maxRetries S" and a3: "p \<noteq> []"
    and a4: "store w (createStorageKey S (butlast p) ''value'') \<noteq> None"
    and a5: "deserializeValue S (afterNodeRecords S p v (store w)
               (createStorageKey S (butlast p) ''children'')) = Inr parsed"
    and a6: "orEmptyArray parsed = JArr xs"
    by blast+
  show "createNode S p v w =
        (Inr (),
         w\<lparr>store := (if JStr (last p) \<in> set xs then afterNodeRecords S p v (store w)
                      else (afterNodeRecords S p v (store w))
                             (createStorageKey S (butlast p) ''children'' \<mapsto>
                                JSON_stringify S (JArr (xs @ [JStr (last p)])))),
           trace := trace w @
             [KvGet (createStorageKey S (butlast p) ''value''),
              KvPut (createStorageKey S p ''value'') (serializeValue S v),
              KvPut (createStorageKey S p ''parent'')
                (Some (JSON_stringify S (JArr (map JStr (butlast p))))),
              KvPut (createStorageKey S p ''children'') (Some (JSON_stringify S (JArr []))),
              KvGet (createStorageKey S (butlast p) ''children'')] @
             (if JStr (last p) \<in> set xs then []
              else [KvPut (createStorageKey S (butlast p) ''children'')
                      (Some (JSON_stringify S (JArr (xs @ [JStr (last p)]))))])\<rparr>)"
    by (rule createNode_child_ok[OF a1 a2 a3 a4 a5 a6])
qed

theorem createNode_spec_witness:
  "fst (createNode exampleStorage [] JNull exampleWorld) = Inl (Error ''Root node already exists'') \<and>
   fst (createNode exampleStorage [''x'', ''y''] JNull exampleWorld) =
     Inl (Error ''Parent node does not exist: x'') \<and>
   trace (snd (createNode exampleStorage [] JNull emptyWorld)) =
     [KvGet (createStorageKey exampleStorage [] ''value''),
      KvPut (createStorageKey exampleStorage [] ''value'') None,
      KvPut (createStorageKey exampleStorage [] ''children'') (Some ''[]'')] \<and>
   trace (snd (createNode exampleStorage [''a''] (JStr ''v'') rootWorld)) =
     [KvGet (createStorageKey exampleStorage [] ''value''),
      KvPut (createStorageKey exampleStorage [''a''] ''value'') (Some (jsonText (JStr ''v''))),
      KvPut (createStorageKey exampleStorage [''a''] ''parent'') (Some ''[]''),
      KvPut (createStorageKey exampleStorage [''a''] ''children'') (Some ''[]''),
      KvGet (createStorageKey exampleStorage [] ''children''),
      KvPut (createStorageKey exampleStorage [] ''children'') (Some (jsonText (JArr [JStr ''a''])))] \<and>
   trace (snd (createNode exampleStorage [''a''] (JStr ''v'') exampleWorld)) =
     [KvGet (createStorageKey exampleStorage [] ''value''),
      KvPut (createStorageKey exampleStorage [''a''] ''value'') (Some (jsonText (JStr ''v''))),
      KvPut (createStorageKey exampleStorage [''a''] ''parent'') (Some ''[]''),
      KvPut (createStorageKey exampleStorage [''a''] ''children'') (Some ''[]''),
      KvGet (createStorageKey exampleStorage [] ''children'')]"
proof -
  have j: "JSON_stringify exampleStorage = jsonText"
    by (simp add: exampleStorage_def refStorage_def newKVTreeStorage_def)
  have h1: "fst (nodeExists exampleStorage [] exampleWorld) = Inr True" by code_simp
  have h2: "[''x'', ''y''] \<noteq> [] \<and>
            fst (nodeExists exampleStorage (butlast [''x'', ''y'']) exampleWorld) = Inr False"
    by code_simp
  have h3: "faults emptyWorld = [] \<and> 0 < maxRetries exampleStorage \<and>
            store emptyWorld (createStorageKey exampleStorage [] ''value'') = None"
    by (simp add: emptyWorld_def maxRetries_exampleStorage)
  have h4: "faults rootWorld = [] \<and> 0 < maxRetries exampleStorage \<and> [''a''] \<noteq> [] \<and>
            store rootWorld (createStorageKey exampleStorage (butlast [''a'']) ''value'') \<noteq> None \<and>
            deserializeValue exampleStorage
              (afterNodeRecords exampleStorage [''a''] (JStr ''v'') (store rootWorld)
                 (createStorageKey exampleStorage (butlast [''a'']) ''children'')) = Inr (JArr []) \<and>
            orEmptyArray (JArr []) = JArr []"
    by code_simp
  have h5: "faults exampleWorld = [] \<and> 0 < maxRetries exampleStorage \<and> [''a''] \<noteq> [] \<and>
            store exampleWorld (createStorageKey exampleStorage (butlast [''a'']) ''value'') \<noteq> None \<and>
            deserializeValue exampleStorage
              (afterNodeRecords exampleStorage [''a''] (JStr ''v'') (store exampleWorld)
                 (createStorageKey exampleStorage (butlast [''a'']) ''children''))
              = Inr (JArr [JStr ''a'']) \<and>
            orEmptyArray (JArr [JStr ''a'']) = JArr [JStr ''a'']"
    by code_simp
  have t: "pathText [''x''] = ''x''" "trace emptyWorld = []" "trace rootWorld = []"
    "trace exampleWorld = []" "serializeValue exampleStorage JNull = None"
    "serializeValue exampleStorage (JStr ''v'') = Some (jsonText (JStr ''v''))"
    "jsonText (JArr []) = ''[]''"
    by (simp_all add: pathText_def emptyWorld_def rootWorld_def exampleWorld_def
          serializeValue_def j)
  note c = createNode_spec[where S = exampleStorage]
  from c[of exampleWorld JNull "[''x'', ''y'']" JNull "[]"] h1
  have r1: "fst (createNode exampleStorage [] JNull exampleWorld) =
              Inl (Error ''Root node already exists'')"
    by simp
  from c[of exampleWorld JNull "[''x'', ''y'']" JNull "[]"] h2
  have r2: "fst (createNode exampleStorage [''x'', ''y''] JNull exampleWorld) =
              Inl (Error ''Parent node does not exist: x'')"
    by (simp add: t)
  from c[of emptyWorld JNull "[''a'']" JNull "[]"] h3
  have r3: "trace (snd (createNode exampleStorage [] JNull emptyWorld)) =
     [KvGet (createStorageKey exampleStorage [] ''value''),
      KvPut (createStorageKey exampleStorage [] ''value'') None,
      KvPut (createStorageKey exampleStorage [] ''children'') (Some ''[]'')]"
    by (simp add: t j)
  from c[of rootWorld "JStr ''v''" "[''a'']" "JArr []" "[]"] h4
  have r4: "trace (snd (createNode exampleStorage [''a''] (JStr ''v'') rootWorld)) =
     [KvGet (createStorageKey exampleStorage [] ''value''),
      KvPut (createStorageKey exampleStorage [''a''] ''value'') (Some (jsonText (JStr ''v''))),
      KvPut (createStorageKey exampleStorage [''a''] ''parent'') (Some ''[]''),
      KvPut (createStorageKey exampleStorage [''a''] ''children'') (Some ''[]''),
      KvGet (createStorageKey exampleStorage [] ''children''),
      KvPut (createStorageKey exampleStorage [] ''children'') (Some (jsonText (JArr [JStr ''a''])))]"
    by (simp add: t j)
  from c[of exampleWorld "JStr ''v''" "[''a'']" "JArr [JStr ''a'']" "[JStr ''a'']"] h5
  have r5: "trace (snd (createNode exampleStorage [''a''] (JStr ''v'') exampleWorld)) =
     [KvGet (createStorageKey exampleStorage [] ''value''),
      KvPut (createStorageKey exampleStorage [''a''] ''value'') (Some (jsonText (JStr ''v''))),
      KvPut (createStorageKey exampleStorage [''a''] ''parent'') (Some ''[]''),
      KvPut (createStorageKey exampleStorage [''a''] ''children'') (Some ''[]''),
      KvGet (createStorageKey exampleStorage [] ''children'')]"
    by (simp add: t j)
  from r1 r2 r3 r4 r5 show ?thesis by blast
qed


subsection \<open>Traversal\<close>

text \<open>Reading does not change the contents of the store, whatever calls are rejected.\<close>

lemma store_kv_called [simp]: "store (kv_called ev w) = store w"
  by (simp add: kv_called_def)

lemma store_sleep [simp]: "store (sleep a w) = store w"
  by (simp add: sleep_def)








lemma childrenVisited_Nil [simp]: "childrenVisited S st decide p d0 []"
  by (simp add: childrenVisited_def)

lemma orderlyVisited_Nil [simp]: "orderlyVisited S st decide p d0 []"
  by (simp add: orderlyVisited_def)














subsection \<open>deleteNode\<close>

lemma traced_simps [simp]:
  "faults (traced evs w) = faults w" "store (traced evs w) = store w"
  "trace (traced evs w) = trace w @ evs"
  "traced a (traced b w) = traced (b @ a) w"
  "traced [] w = w"
  by (simp_all add: traced_def)

lemma logged_traced: "logged ev w = traced [ev] w"
  by (simp add: logged_def traced_def)

lemma collect_read:
  assumes "faults w = []" "0 < maxRetries S"
  shows "bindE (getChildren S p) (\<lambda>children. liftE (forOf ''children'' children)) w =
           ((case bindE (getChildren S p) (\<lambda>children. liftE (forOf ''children'' children)) w of
               (r, w') \<Rightarrow> r), traced [KvGet (createStorageKey S p ''children'')] w) \<and>
         (case fst (bindE (getChildren S p) (\<lambda>children. liftE (forOf ''children'' children)) w) of
            Inr keys \<Rightarrow> keys | Inl e \<Rightarrow> []) = childKeys S (store w) p"
  using assms
  by (auto simp add: bindE_def getChildren_ok liftE_def childKeys_def deserializeValue_def
        logged_traced split: option.splits sum.splits)

lemma collectLoop_step:
  assumes "faults w = []" "0 < maxRetries S"
  shows "collectLoop S (Suc fuel) (p # queue) D w =
         collectLoop S fuel (queue @ map (\<lambda>k. p @ [k]) (childKeys S (store w) p))
           (D @ map (\<lambda>k. p @ [k]) (childKeys S (store w) p))
           (traced [KvGet (createStorageKey S p ''children'')] w)"
proof -
  let ?m = "bindE (getChildren S p) (\<lambda>children. liftE (forOf ''children'' children)) w"
  from collect_read[OF assms, of p]
  have w': "snd ?m = traced [KvGet (createStorageKey S p ''children'')] w"
    and k: "(case fst ?m of Inr keys \<Rightarrow> keys | Inl e \<Rightarrow> []) = childKeys S (store w) p"
    by (simp_all add: split_beta) (metis snd_conv)
  show ?thesis
  proof (cases "fst ?m")
    case (Inl e)
    with k have "childKeys S (store w) p = []" by simp
    with Inl w' show ?thesis by (cases ?m) simp
  next
    case (Inr keys)
    with k have "childKeys S (store w) p = keys" by simp
    with Inr w' show ?thesis by (cases ?m) simp
  qed
qed

lemma holdsTree_item:
  "holdsTree S st (fst it) (snd it) \<Longrightarrow>
   map (\<lambda>k. itemPath it @ [k]) (childKeys S st (itemPath it)) = map itemPath (itemKids it) \<and>
   (\<forall>c \<in> set (itemKids it). holdsTree S st (fst c) (snd c))"
  by (cases "snd it") (auto simp add: itemPath_def itemKids_def)

lemma collectLoop_level:
  assumes "faults w = []" "0 < maxRetries S"
    and "\<forall>it \<in> set lvl. holdsTree S (store w) (fst it) (snd it)"
    and "length lvl \<le> fuel"
  shows "collectLoop S fuel (map itemPath lvl @ rest) D w =
         collectLoop S (fuel - length lvl)
           (rest @ map itemPath (concat (map itemKids lvl)))
           (D @ map itemPath (concat (map itemKids lvl)))
           (traced (map (\<lambda>q. KvGet (createStorageKey S q ''children'')) (map itemPath lvl)) w)"
  using assms
proof (induction lvl arbitrary: fuel rest D w)
  case Nil
  then show ?case by simp
next
  case (Cons it lvl)
  from Cons.prems(4) obtain fuel' where fuel: "fuel = Suc fuel'" by (cases fuel) auto
  let ?w1 = "traced [KvGet (createStorageKey S (itemPath it) ''children'')] w"
  from Cons.prems(3) have h: "holdsTree S (store w) (fst it) (snd it)" by simp
  note kids = holdsTree_item[OF h, THEN conjunct1]
  have step: "collectLoop S fuel (map itemPath (it # lvl) @ rest) D w =
      collectLoop S fuel' ((map itemPath lvl @ rest) @ map itemPath (itemKids it))
        (D @ map itemPath (itemKids it)) ?w1"
    using collectLoop_step[OF Cons.prems(1,2), of fuel' "itemPath it" "map itemPath lvl @ rest" D]
    by (simp add: fuel kids)
  have "collectLoop S fuel' (map itemPath lvl @ (rest @ map itemPath (itemKids it)))
        (D @ map itemPath (itemKids it)) ?w1 =
      collectLoop S (fuel' - length lvl)
        ((rest @ map itemPath (itemKids it)) @ map itemPath (concat (map itemKids lvl)))
        ((D @ map itemPath (itemKids it)) @ map itemPath (concat (map itemKids lvl)))
        (traced (map (\<lambda>q. KvGet (createStorageKey S q ''children'')) (map itemPath lvl)) ?w1)"
    using Cons.prems fuel by (intro Cons.IH) simp_all
  with step show ?case by (simp add: fuel)
qed

lemma pathsAtDepth_kids:
  "concat (map (\<lambda>it. pathsAtDepth (Suc d) (fst it) (snd it)) lvl) =
   concat (map (\<lambda>it. pathsAtDepth d (fst it) (snd it)) (concat (map itemKids lvl)))"
  by (induction lvl) (simp_all add: itemKids_def itemPath_def comp_def)

lemma pathsAtDepth_0:
  "concat (map (\<lambda>it. pathsAtDepth 0 (fst it) (snd it)) lvl) = map itemPath lvl"
  by (induction lvl) (simp_all add: itemPath_def)

declare pathsAtDepth.simps [simp del]

lemma treeSize_kids:
  "sum_list (map (\<lambda>it. treeSize (snd it)) lvl) =
   length lvl + sum_list (map (\<lambda>it. treeSize (snd it)) (concat (map itemKids lvl)))"
proof (induction lvl)
  case Nil
  then show ?case by simp
next
  case (Cons it lvl)
  have "treeSize (snd it) = Suc (sum_list (map (\<lambda>c. treeSize (snd c)) (itemKids it)))"
    by (cases "snd it") (simp add: itemKids_def comp_def)
  with Cons show ?case by simp
qed

lemma height_kids:
  assumes "height (snd it) \<le> Suc h" "c \<in> set (itemKids it)"
  shows "height (snd c) \<le> h"
proof -
  obtain k ts where t: "snd it = KNode k ts" by (cases "snd it")
  from assms(2) t have m: "snd c \<in> set ts" by (auto simp add: itemKids_def)
  then have "ts \<noteq> []" by auto
  with assms(1) t have "Max (set (map height ts)) \<le> h" by simp
  moreover from m have "height (snd c) \<le> Max (set (map height ts))" by simp
  ultimately show ?thesis by simp
qed

lemma height_0_kids: "height (snd it) = 0 \<Longrightarrow> itemKids it = []"
  by (cases "snd it") (auto simp add: itemKids_def split: if_splits)

lemma upt_shift: "map f [Suc a ..< Suc b] = map (\<lambda>d. f (Suc d)) [a ..< b]"
  by (simp add: map_Suc_upt[symmetric] del: upt_Suc)

lemma collectLoop_levels:
  assumes "faults w = []" "0 < maxRetries S"
    and "\<forall>it \<in> set lvl. holdsTree S (store w) (fst it) (snd it)"
    and "\<forall>it \<in> set lvl. height (snd it) \<le> h"
    and "sum_list (map (\<lambda>it. treeSize (snd it)) lvl) \<le> fuel"
  shows "collectLoop S fuel (map itemPath lvl) D w =
         Some (D @ concat (map (\<lambda>d. concat (map (\<lambda>it. pathsAtDepth d (fst it) (snd it)) lvl))
                            [1 ..< Suc h]),
               traced (map (\<lambda>q. KvGet (createStorageKey S q ''children''))
                 (concat (map (\<lambda>d. concat (map (\<lambda>it. pathsAtDepth d (fst it) (snd it)) lvl))
                            [0 ..< Suc h]))) w)"
  using assms
proof (induction h arbitrary: lvl fuel D w)
  case 0
  let ?w1 = "traced (map (\<lambda>q. KvGet (createStorageKey S q ''children'')) (map itemPath lvl)) w"
  from "0.prems"(4) have nokids: "concat (map itemKids lvl) = []"
    by (auto simp add: height_0_kids)
  have len: "length lvl \<le> fuel"
    using "0.prems"(5) treeSize_kids[of lvl] by simp
  from collectLoop_level[OF "0.prems"(1,2,3) len, of "[]" D]
  have "collectLoop S fuel (map itemPath lvl) D w = collectLoop S (fuel - length lvl) [] D ?w1"
    by (simp add: nokids)
  then show ?case by (simp add: pathsAtDepth_0)
next
  case (Suc h)
  let ?next = "concat (map itemKids lvl)"
  let ?w1 = "traced (map (\<lambda>q. KvGet (createStorageKey S q ''children'')) (map itemPath lvl)) w"
  have len: "length lvl \<le> fuel"
    using Suc.prems(5) treeSize_kids[of lvl] by simp
  from collectLoop_level[OF Suc.prems(1,2,3) len, of "[]" D]
  have first: "collectLoop S fuel (map itemPath lvl) D w =
      collectLoop S (fuel - length lvl) (map itemPath ?next) (D @ map itemPath ?next) ?w1"
    by simp
  have hold: "\<forall>it \<in> set ?next. holdsTree S (store ?w1) (fst it) (snd it)"
    using Suc.prems(3) holdsTree_item by fastforce
  have hts: "\<forall>it \<in> set ?next. height (snd it) \<le> h"
    using Suc.prems(4) height_kids by fastforce
  have fl: "sum_list (map (\<lambda>it. treeSize (snd it)) ?next) \<le> fuel - length lvl"
    using Suc.prems(5) treeSize_kids[of lvl] by simp
  have f1: "faults ?w1 = []" using Suc.prems(1) by simp
  note ih = Suc.IH[OF f1 Suc.prems(2) hold hts fl, of "D @ map itemPath ?next"]
  have l1: "map (\<lambda>d. concat (map (\<lambda>it. pathsAtDepth d (fst it) (snd it)) lvl)) [1 ..< Suc (Suc h)] =
            map itemPath ?next #
            map (\<lambda>d. concat (map (\<lambda>it. pathsAtDepth d (fst it) (snd it)) ?next)) [1 ..< Suc h]"
  proof -
    have "[1 ..< Suc (Suc h)] = 1 # [Suc 1 ..< Suc (Suc h)]" by (simp add: upt_rec)
    moreover have "concat (map (\<lambda>it. pathsAtDepth 1 (fst it) (snd it)) lvl) = map itemPath ?next"
      using pathsAtDepth_kids[of 0 lvl] by (simp add: pathsAtDepth_0)
    moreover have "map (\<lambda>d. concat (map (\<lambda>it. pathsAtDepth d (fst it) (snd it)) lvl))
                     [Suc 1 ..< Suc (Suc h)] =
                   map (\<lambda>d. concat (map (\<lambda>it. pathsAtDepth d (fst it) (snd it)) ?next)) [1 ..< Suc h]"
      by (simp only: upt_shift pathsAtDepth_kids)
    ultimately show ?thesis by simp
  qed
  have l0: "map (\<lambda>d. concat (map (\<lambda>it. pathsAtDepth d (fst it) (snd it)) lvl)) [0 ..< Suc (Suc h)] =
            map itemPath lvl #
            map (\<lambda>d. concat (map (\<lambda>it. pathsAtDepth d (fst it) (snd it)) ?next)) [0 ..< Suc h]"
  proof -
    have "[0 ..< Suc (Suc h)] = 0 # [Suc 0 ..< Suc (Suc h)]" by (simp add: upt_rec)
    moreover have "map (\<lambda>d. concat (map (\<lambda>it. pathsAtDepth d (fst it) (snd it)) lvl))
                     [Suc 0 ..< Suc (Suc h)] =
                   map (\<lambda>d. concat (map (\<lambda>it. pathsAtDepth d (fst it) (snd it)) ?next)) [0 ..< Suc h]"
      by (simp only: upt_shift pathsAtDepth_kids)
    ultimately show ?thesis by (simp add: pathsAtDepth_0)
  qed
  show ?case
    unfolding first ih l1 l0 by simp
qed

lemma collectDescendants_tree:
  assumes "faults w = []" "0 < maxRetries S"
    and "holdsTree S (store w) pp t" and "treeSize t \<le> fuel"
  shows "collectDescendants S fuel (pp @ [nodeKey t]) w =
         Some (Inr (levelOrder pp t),
               traced (map (\<lambda>q. KvGet (createStorageKey S q ''children''))
                         ((pp @ [nodeKey t]) # levelOrder pp t)) w)"
proof -
  have up: "[0 ..< Suc (height t)] = 0 # [1 ..< Suc (height t)]" by (simp add: upt_rec)
  from collectLoop_levels[OF assms(1,2), of "[(pp, t)]" "height t" fuel "[]"] assms(3,4)
  have "collectLoop S fuel [pp @ [nodeKey t]] [] w =
        Some (levelOrder pp t,
              traced (map (\<lambda>q. KvGet (createStorageKey S q ''children''))
                        ((pp @ [nodeKey t]) # levelOrder pp t)) w)"
    unfolding up by (simp add: itemPath_def levelOrder_def pathsAtDepth.simps(1))
  then show ?thesis by (simp add: collectDescendants_def)
qed

lemma without_append: "without st (a @ b) = without (without st a) b"
  by (simp add: without_def)

lemma delete_keys_ok:
  assumes "faults w = []" "0 < maxRetries S"
  shows "forEachE keys (\<lambda>key. withRetry S (kv_delete key) (ctx key)) w =
         (Inr (), (traced (map KvDelete keys) w)\<lparr>store := without (store w) keys\<rparr>)"
  using assms(1)
proof (induction keys arbitrary: w)
  case Nil
  then show ?case by (simp add: returnE_def without_def)
next
  case (Cons k keys)
  let ?w1 = "logged (KvDelete k) (w\<lparr>store := (store w)(k := None)\<rparr>)"
  have f1: "faults ?w1 = []" using Cons.prems by simp
  have step: "withRetry S (kv_delete k) (ctx k) w = (Inr (), ?w1)"
    using Cons.prems assms(2) by (rule withRetry_kv_delete_ok)
  have "forEachE (k # keys) (\<lambda>key. withRetry S (kv_delete key) (ctx key)) w =
        forEachE keys (\<lambda>key. withRetry S (kv_delete key) (ctx key)) ?w1"
    by (simp add: bindE_def step)
  also have "\<dots> = (Inr (), (traced (map KvDelete keys) ?w1)\<lparr>store := without (store ?w1) keys\<rparr>)"
    by (rule Cons.IH[OF f1])
  also have "\<dots> = (Inr (), (traced (map KvDelete (k # keys)) w)\<lparr>store := without (store w) (k # keys)\<rparr>)"
    by (simp add: without_def logged_def traced_def)
  finally show ?case .
qed

lemma deleteSingleNode_ok:
  assumes "faults w = []" "0 < maxRetries S"
  shows "deleteSingleNode S p w =
         (Inr (), (traced (map KvDelete (nodeKeys S p)) w)\<lparr>store := without (store w) (nodeKeys S p)\<rparr>)"
  using delete_keys_ok[OF assms, of "nodeKeys S p" "\<lambda>key. ''delete key '' @ key"]
  by (simp add: deleteSingleNode_def nodeKeys_def Let_def)

lemma delete_nodes_ok:
  assumes "faults w = []" "0 < maxRetries S"
  shows "forEachE paths (deleteSingleNode S) w =
         (Inr (), (traced (map KvDelete (concat (map (nodeKeys S) paths))) w)
                    \<lparr>store := without (store w) (concat (map (nodeKeys S) paths))\<rparr>)"
  using assms(1)
proof (induction paths arbitrary: w)
  case Nil
  then show ?case by (simp add: returnE_def without_def)
next
  case (Cons p paths)
  let ?w1 = "(traced (map KvDelete (nodeKeys S p)) w)\<lparr>store := without (store w) (nodeKeys S p)\<rparr>"
  have f1: "faults ?w1 = []" using Cons.prems by simp
  have "forEachE (p # paths) (deleteSingleNode S) w = forEachE paths (deleteSingleNode S) ?w1"
    by (simp add: bindE_def deleteSingleNode_ok[OF Cons.prems assms(2)])
  also have "\<dots> = (Inr (), (traced (map KvDelete (concat (map (nodeKeys S) paths))) ?w1)
                    \<lparr>store := without (store ?w1) (concat (map (nodeKeys S) paths))\<rparr>)"
    by (rule Cons.IH[OF f1])
  also have "\<dots> = (Inr (), (traced (map KvDelete (concat (map (nodeKeys S) (p # paths)))) w)
                    \<lparr>store := without (store w) (concat (map (nodeKeys S) (p # paths)))\<rparr>)"
    by (simp add: without_append traced_def)
  finally show ?case .
qed

lemma removeChildFromParent_ok:
  assumes "faults w = []" "0 < maxRetries S"
    and "deserializeValue S (store w (createStorageKey S parentPath ''children'')) = Inr parsed"
    and "orEmptyArray parsed = JArr xs"
  shows "removeChildFromParent S parentPath childKey w =
     (Inr (),
      (traced [KvGet (createStorageKey S parentPath ''children''),
               KvPut (createStorageKey S parentPath ''children'')
                 (Some (JSON_stringify S (JArr (filter (\<lambda>x. x \<noteq> JStr childKey) xs))))] w)
        \<lparr>store := (store w)(createStorageKey S parentPath ''children'' \<mapsto>
             JSON_stringify S (JArr (filter (\<lambda>x. x \<noteq> JStr childKey) xs)))\<rparr>)"
  using assms
  by (simp add: removeChildFromParent_def Let_def bindE_def withRetry_kv_get_ok liftE_def
       jsFilterNot_def withRetry_kv_put_ok kv_coerce_def logged_def traced_def)

lemma deleteNode_root: "deleteNode S fuel [] w = Some (Inl (Error ''Cannot delete root node''), w)"
  by (simp add: deleteNode_def liftF_def throwE_def)

lemma deleteNode_missing:
  "p \<noteq> [] \<Longrightarrow> fst (nodeExists S p w) = Inr False \<Longrightarrow>
   deleteNode S fuel p w =
     Some (Inl (Error (''Node does not exist: '' @ pathText p)), snd (nodeExists S p w))"
  by (cases "nodeExists S p w") (simp add: deleteNode_def liftF_def bindF_def throwE_def)

lemma deleteNode_tree:
  assumes f: "faults w = []" and m: "0 < maxRetries S"
    and ex: "store w (createStorageKey S (pp @ [nodeKey t]) ''value'') \<noteq> None"
    and h: "holdsTree S (store w) pp t" and fu: "treeSize t \<le> fuel"
    and par: "deserializeValue S (without (store w) (deletedKeys S pp t)
                 (createStorageKey S pp ''children'')) = Inr parsed"
    and arr: "orEmptyArray parsed = JArr xs"
  shows "deleteNode S fuel (pp @ [nodeKey t]) w =
     Some (Inr (),
       w\<lparr>store := (without (store w) (deletedKeys S pp t))
                     (createStorageKey S pp ''children'' \<mapsto>
                        JSON_stringify S (JArr (filter (\<lambda>x. x \<noteq> JStr (nodeKey t)) xs))),
         trace := trace w @
           [KvGet (createStorageKey S (pp @ [nodeKey t]) ''value'')] @
           map (\<lambda>q. KvGet (createStorageKey S q ''children''))
             ((pp @ [nodeKey t]) # levelOrder pp t) @
           map KvDelete (deletedKeys S pp t) @
           [KvGet (createStorageKey S pp ''children''),
            KvPut (createStorageKey S pp ''children'')
              (Some (JSON_stringify S (JArr (filter (\<lambda>x. x \<noteq> JStr (nodeKey t)) xs))))]\<rparr>)"
proof -
  let ?p = "pp @ [nodeKey t]"
  let ?w1 = "logged (KvGet (createStorageKey S ?p ''value'')) w"
  let ?w2 = "traced (KvGet (createStorageKey S ?p ''children'') #
                     map (\<lambda>q. KvGet (createStorageKey S q ''children'')) (levelOrder pp t)) ?w1"
  let ?w3 = "(traced (KvGet (createStorageKey S ?p ''children'') #
                      map (\<lambda>q. KvGet (createStorageKey S q ''children'')) (levelOrder pp t) @
                      map KvDelete (deletedKeys S pp t)) ?w1)
               \<lparr>store := without (store w) (deletedKeys S pp t)\<rparr>"
  have f1: "faults ?w1 = []" using f by simp
  have h1: "holdsTree S (store ?w1) pp t" using h by simp
  have ne: "nodeExists S ?p w = (Inr True, ?w1)"
    using f ex by (simp add: nodeExists_ok)
  have cd: "collectDescendants S fuel ?p ?w1 = Some (Inr (levelOrder pp t), ?w2)"
    using collectDescendants_tree[OF f1 m h1 fu] by simp
  have f2: "faults ?w2 = []" using f by simp
  have del: "forEachE (rev (?p # levelOrder pp t)) (deleteSingleNode S) ?w2 = (Inr (), ?w3)"
    using delete_nodes_ok[OF f2 m, of "rev (?p # levelOrder pp t)"]
    unfolding deletedKeys_def[symmetric] by simp
  have f3: "faults ?w3 = []" using f by simp
  have par3: "deserializeValue S (store ?w3 (createStorageKey S pp ''children'')) = Inr parsed"
    using par by simp
  note rm = removeChildFromParent_ok[OF f3 m par3 arr, of "nodeKey t"]
  have body: "bindE (forEachE (rev (?p # levelOrder pp t)) (deleteSingleNode S))
                (\<lambda>_. removeChildFromParent S pp (nodeKey t)) ?w2 =
              removeChildFromParent S pp (nodeKey t) ?w3"
    unfolding bindE_def del by simp
  have "deleteNode S fuel ?p w =
        Some (removeChildFromParent S pp (nodeKey t) ?w3)"
    by (simp add: deleteNode_def liftF_def bindF_def ne cd tryCatch_def body rm del: rev.simps)
  also have "removeChildFromParent S pp (nodeKey t) ?w3 = (Inr (),
       w\<lparr>store := (without (store w) (deletedKeys S pp t))
                     (createStorageKey S pp ''children'' \<mapsto>
                        JSON_stringify S (JArr (filter (\<lambda>x. x \<noteq> JStr (nodeKey t)) xs))),
         trace := trace w @
           [KvGet (createStorageKey S (pp @ [nodeKey t]) ''value'')] @
           map (\<lambda>q. KvGet (createStorageKey S q ''children''))
             ((pp @ [nodeKey t]) # levelOrder pp t) @
           map KvDelete (deletedKeys S pp t) @
           [KvGet (createStorageKey S pp ''children''),
            KvPut (createStorageKey S pp ''children'')
              (Some (JSON_stringify S (JArr (filter (\<lambda>x. x \<noteq> JStr (nodeKey t)) xs))))]\<rparr>)"
    unfolding rm by (simp add: logged_def traced_def)
  finally show ?thesis .
qed

lemma pathsAtDepth_length:
  "q \<in> set (pathsAtDepth d pp t) \<Longrightarrow> length q = length pp + Suc d"
  by (induction d arbitrary: pp t q) (auto simp add: pathsAtDepth.simps)

lemma same_length_sorted:
  "(\<forall>q \<in> set xs. length q = n) \<Longrightarrow> sorted_wrt (\<lambda>a b. length a \<le> length b) xs"
  by (induction xs) auto

lemma levels_sorted:
  assumes "\<And>d q. q \<in> set (f d) \<Longrightarrow> length q = c + d"
  shows "sorted_wrt (\<lambda>a b. length a \<le> length b) (concat (map f [a ..< b])) \<and>
         (\<forall>q \<in> set (concat (map f [a ..< b])). length q < c + b \<and> c + a \<le> length q)"
proof (induction b)
  case 0
  then show ?case by simp
next
  case (Suc b)
  show ?case
  proof (cases "a \<le> b")
    case False
    then show ?thesis by simp
  next
    case True
    then have up: "[a ..< Suc b] = [a ..< b] @ [b]" by simp
    have lastlen: "\<forall>q \<in> set (f b). length q = c + b" using assms by simp
    then have lasts: "sorted_wrt (\<lambda>a b. length a \<le> length b) (f b)"
      by (rule same_length_sorted)
    from Suc have s: "sorted_wrt (\<lambda>a b. length a \<le> length b) (concat (map f [a ..< b]))"
      and bnd: "\<forall>q \<in> set (concat (map f [a ..< b])). length q < c + b \<and> c + a \<le> length q"
      by blast+
    have cross: "\<forall>x \<in> set (concat (map f [a ..< b])). \<forall>y \<in> set (f b). length x \<le> length y"
      using bnd lastlen by (metis less_imp_le_nat)
    have bnd': "\<forall>q \<in> set (concat (map f [a ..< b]) @ f b). length q < c + Suc b \<and> c + a \<le> length q"
      using bnd lastlen True by (auto simp add: less_Suc_eq)
    show ?thesis
      unfolding up using s lasts cross bnd' by (simp add: sorted_wrt_append)
  qed
qed

lemma deletion_order:
  "sorted_wrt (\<lambda>a b. length b \<le> length a) (rev ((pp @ [nodeKey t]) # levelOrder pp t))"
proof -
  have a: "\<And>d q. q \<in> set (pathsAtDepth d pp t) \<Longrightarrow> length q = Suc (length pp) + d"
    by (simp add: pathsAtDepth_length)
  from levels_sorted[of "\<lambda>d. pathsAtDepth d pp t" "Suc (length pp)" 1 "Suc (height t)", OF a]
  have "sorted_wrt (\<lambda>a b. length a \<le> length b) (levelOrder pp t) \<and>
        (\<forall>q \<in> set (levelOrder pp t).
           length q < Suc (length pp) + Suc (height t) \<and> Suc (length pp) + 1 \<le> length q)"
    unfolding levelOrder_def .
  then have s: "sorted_wrt (\<lambda>a b. length a \<le> length b) (levelOrder pp t)"
    and b: "\<forall>q \<in> set (levelOrder pp t). Suc (length pp) + 1 \<le> length q"
    by blast+
  from s b have "sorted_wrt (\<lambda>a b. length a \<le> length b) ((pp @ [nodeKey t]) # levelOrder pp t)"
    by auto
  then show ?thesis by (simp only: sorted_wrt_rev)
qed

text \<open>
  Claim C6. \<open>deleteNode\<close> on the root path fails, and on a path whose node \<open>nodeExists\<close>
  does not report it fails, the store only read. For a path other than the root whose node
  exists, on a store that rejects no call and holds the tree \<open>t\<close> at the path (with fuel for
  every node of it, and a parent children record that parses to a list): \<open>deleteNode\<close> reads
  the children lists of the node and its descendants breadth-first, deletes the records of the
  node and every descendant in the reverse of that order (value, children, parent pointer for
  each), a deeper path never after a shallower one, and last writes the parent's children list
  without the last key of the path.
\<close>

theorem deleteNode_spec:
  "deleteNode S fuel [] w = Some (Inl (Error ''Cannot delete root node''), w) \<and>
   (p \<noteq> [] \<and> fst (nodeExists S p w) = Inr False \<longrightarrow>
      deleteNode S fuel p w =
        Some (Inl (Error (''Node does not exist: '' @ pathText p)), snd (nodeExists S p w))) \<and>
   (faults w = [] \<and> 0 < maxRetries S \<and>
    store w (createStorageKey S (pp @ [nodeKey t]) ''value'') \<noteq> None \<and>
    holdsTree S (store w) pp t \<and> treeSize t \<le> fuel \<and>
    deserializeValue S (without (store w) (deletedKeys S pp t)
       (createStorageKey S pp ''children'')) = Inr parsed \<and>
    orEmptyArray parsed = JArr xs \<longrightarrow>
      deleteNode S fuel (pp @ [nodeKey t]) w =
        Some (Inr (),
          w\<lparr>store := (without (store w) (deletedKeys S pp t))
                        (createStorageKey S pp ''children'' \<mapsto>
                           JSON_stringify S (JArr (filter (\<lambda>x. x \<noteq> JStr (nodeKey t)) xs))),
            trace := trace w @
              [KvGet (createStorageKey S (pp @ [nodeKey t]) ''value'')] @
              map (\<lambda>q. KvGet (createStorageKey S q ''children''))
                ((pp @ [nodeKey t]) # levelOrder pp t) @
              map KvDelete (deletedKeys S pp t) @
              [KvGet (createStorageKey S pp ''children''),
               KvPut (createStorageKey S pp ''children'')
                 (Some (JSON_stringify S (JArr (filter (\<lambda>x. x \<noteq> JStr (nodeKey t)) xs))))]\<rparr>)) \<and>
   deletedKeys S pp t =
     concat (map (nodeKeys S) (rev ((pp @ [nodeKey t]) # levelOrder pp t))) \<and>
   sorted_wrt (\<lambda>a b. length b \<le> length a) (rev ((pp @ [nodeKey t]) # levelOrder pp t))"
proof (intro conjI impI)
  show "deleteNode S fuel [] w = Some (Inl (Error ''Cannot delete root node''), w)"
    by (rule deleteNode_root)
next
  assume "p \<noteq> [] \<and> fst (nodeExists S p w) = Inr False"
  then show "deleteNode S fuel p w =
        Some (Inl (Error (''Node does not exist: '' @ pathText p)), snd (nodeExists S p w))"
    by (simp add: deleteNode_missing)
next
  assume h: "faults w = [] \<and> 0 < maxRetries S \<and>
    store w (createStorageKey S (pp @ [nodeKey t]) ''value'') \<noteq> None \<and>
    holdsTree S (store w) pp t \<and> treeSize t \<le> fuel \<and>
    deserializeValue S (without (store w) (deletedKeys S pp t)
       (createStorageKey S pp ''children'')) = Inr parsed \<and>
    orEmptyArray parsed = JArr xs"
  then have a1: "faults w = []" and a2: "0 < maxRetries S"
    and a3: "store w (createStorageKey S (pp @ [nodeKey t]) ''value'') \<noteq> None"
    and a4: "holdsTree S (store w) pp t" and a5: "treeSize t \<le> fuel"
    and a6: "deserializeValue S (without (store w) (deletedKeys S pp t)
               (createStorageKey S pp ''children'')) = Inr parsed"
    and a7: "orEmptyArray parsed = JArr xs"
    by blast+
  show "deleteNode S fuel (pp @ [nodeKey t]) w =
        Some (Inr (),
          w\<lparr>store := (without (store w) (deletedKeys S pp t))
                        (createStorageKey S pp ''children'' \<mapsto>
                           JSON_stringify S (JArr (filter (\<lambda>x. x \<noteq> JStr (nodeKey t)) xs))),
            trace := trace w @
              [KvGet (createStorageKey S (pp @ [nodeKey t]) ''value'')] @
              map (\<lambda>q. KvGet (createStorageKey S q ''children''))
                ((pp @ [nodeKey t]) # levelOrder pp t) @
              map KvDelete (deletedKeys S pp t) @
              [KvGet (createStorageKey S pp ''children''),
               KvPut (createStorageKey S pp ''children'')
                 (Some (JSON_stringify S (JArr (filter (\<lambda>x. x \<noteq> JStr (nodeKey t)) xs))))]\<rparr>)"
    by (rule deleteNode_tree[OF a1 a2 a3 a4 a5 a6 a7])
next
  show "deletedKeys S pp t =
     concat (map (nodeKeys S) (rev ((pp @ [nodeKey t]) # levelOrder pp t)))"
    by (rule deletedKeys_def)
next
  show "sorted_wrt (\<lambda>a b. length b \<le> length a) (rev ((pp @ [nodeKey t]) # levelOrder pp t))"
    by (rule deletion_order)
qed

theorem deleteNode_spec_witness:
  "deleteNode exampleStorage 2 [] exampleWorld =
     Some (Inl (Error ''Cannot delete root node''), exampleWorld) \<and>
   map_option fst (deleteNode exampleStorage 2 [''x''] exampleWorld) =
     Some (Inl (Error ''Node does not exist: x'')) \<and>
   map_option fst (deleteNode exampleStorage 2 [''a''] exampleWorld) = Some (Inr ()) \<and>
   map_option (\<lambda>res. trace (snd res)) (deleteNode exampleStorage 2 [''a''] exampleWorld) =
     Some [KvGet (createStorageKey exampleStorage [''a''] ''value''),
           KvGet (createStorageKey exampleStorage [''a''] ''children''),
           KvGet (createStorageKey exampleStorage [''a'', ''b''] ''children''),
           KvDelete (createStorageKey exampleStorage [''a'', ''b''] ''value''),
           KvDelete (createStorageKey exampleStorage [''a'', ''b''] ''children''),
           KvDelete (createStorageKey exampleStorage [''a'', ''b''] ''parent''),
           KvDelete (createStorageKey exampleStorage [''a''] ''value''),
           KvDelete (createStorageKey exampleStorage [''a''] ''children''),
           KvDelete (createStorageKey exampleStorage [''a''] ''parent''),
           KvGet (createStorageKey exampleStorage [] ''children''),
           KvPut (createStorageKey exampleStorage [] ''children'') (Some ''[]'')]"
proof -
  let ?t = "KNode ''a'' [KNode ''b'' []]"
  have j: "JSON_stringify exampleStorage = jsonText"
    by (simp add: exampleStorage_def refStorage_def newKVTreeStorage_def)
  have h2: "[''x''] \<noteq> [] \<and> fst (nodeExists exampleStorage [''x''] exampleWorld) = Inr False"
    by code_simp
  have h3: "faults exampleWorld = [] \<and> 0 < maxRetries exampleStorage \<and>
    store exampleWorld (createStorageKey exampleStorage ([] @ [nodeKey ?t]) ''value'') \<noteq> None \<and>
    holdsTree exampleStorage (store exampleWorld) [] ?t \<and> treeSize ?t \<le> 2 \<and>
    deserializeValue exampleStorage (without (store exampleWorld) (deletedKeys exampleStorage [] ?t)
       (createStorageKey exampleStorage [] ''children'')) = Inr (JArr [JStr ''a'']) \<and>
    orEmptyArray (JArr [JStr ''a'']) = JArr [JStr ''a'']"
    by code_simp
  have lo: "levelOrder [] ?t = [[''a'', ''b'']]" by code_simp
  have dk: "deletedKeys exampleStorage [] ?t =
              nodeKeys exampleStorage [''a'', ''b''] @ nodeKeys exampleStorage [''a'']"
    by (simp add: deletedKeys_def lo)
  have t: "pathText [''x''] = ''x''" "trace exampleWorld = []" "jsonText (JArr []) = ''[]''"
    by (simp_all add: pathText_def exampleWorld_def)
  note d = deleteNode_spec[where S = exampleStorage and fuel = 2 and w = exampleWorld]
  from d[of "[''x'']" "[]" ?t "JArr [JStr ''a'']" "[JStr ''a'']"]
  have r1: "deleteNode exampleStorage 2 [] exampleWorld =
     Some (Inl (Error ''Cannot delete root node''), exampleWorld)"
    by (rule conjunct1)
  from d[of "[''x'']" "[]" ?t "JArr [JStr ''a'']" "[JStr ''a'']"] h2
  have r2: "map_option fst (deleteNode exampleStorage 2 [''x''] exampleWorld) =
     Some (Inl (Error ''Node does not exist: x''))"
    by (simp add: t)
  from d[of "[''x'']" "[]" ?t "JArr [JStr ''a'']" "[JStr ''a'']"] h3
  have r3: "deleteNode exampleStorage 2 ([] @ [nodeKey ?t]) exampleWorld =
        Some (Inr (),
          exampleWorld\<lparr>store := (without (store exampleWorld) (deletedKeys exampleStorage [] ?t))
                        (createStorageKey exampleStorage [] ''children'' \<mapsto>
                           JSON_stringify exampleStorage
                             (JArr (filter (\<lambda>x. x \<noteq> JStr (nodeKey ?t)) [JStr ''a'']))),
            trace := trace exampleWorld @
              [KvGet (createStorageKey exampleStorage ([] @ [nodeKey ?t]) ''value'')] @
              map (\<lambda>q. KvGet (createStorageKey exampleStorage q ''children''))
                (([] @ [nodeKey ?t]) # levelOrder [] ?t) @
              map KvDelete (deletedKeys exampleStorage [] ?t) @
              [KvGet (createStorageKey exampleStorage [] ''children''),
               KvPut (createStorageKey exampleStorage [] ''children'')
                 (Some (JSON_stringify exampleStorage
                    (JArr (filter (\<lambda>x. x \<noteq> JStr (nodeKey ?t)) [JStr ''a'']))))]\<rparr>)"
    by blast
  from r3 have r4: "map_option fst (deleteNode exampleStorage 2 [''a''] exampleWorld) = Some (Inr ())"
    by simp
  from r3 have r5:
    "map_option (\<lambda>res. trace (snd res)) (deleteNode exampleStorage 2 [''a''] exampleWorld) =
     Some [KvGet (createStorageKey exampleStorage [''a''] ''value''),
           KvGet (createStorageKey exampleStorage [''a''] ''children''),
           KvGet (createStorageKey exampleStorage [''a'', ''b''] ''children''),
           KvDelete (createStorageKey exampleStorage [''a'', ''b''] ''value''),
           KvDelete (createStorageKey exampleStorage [''a'', ''b''] ''children''),
           KvDelete (createStorageKey exampleStorage [''a'', ''b''] ''parent''),
           KvDelete (createStorageKey exampleStorage [''a''] ''value''),
           KvDelete (createStorageKey exampleStorage [''a''] ''children''),
           KvDelete (createStorageKey exampleStorage [''a''] ''parent''),
           KvGet (createStorageKey exampleStorage [] ''children''),
           KvPut (createStorageKey exampleStorage [] ''children'') (Some ''[]'')]"
    by (simp add: t j lo dk nodeKeys_def)
  from r1 r2 r4 r5 show ?thesis by blast
qed


subsection \<open>moveNode\<close>












subsection \<open>The path codec: digits and code units\<close>

lemma ch_values:
  "ch (CHR 0x5C) = 0x5C" "ch CHR ''/'' = 0x2F" "ch CHR ''&'' = 0x26" "ch CHR ''%'' = 0x25"
  "ch CHR ''n'' = 0x6E" "ch CHR ''t'' = 0x74" "ch CHR ''r'' = 0x72" "ch CHR ''x'' = 0x78"
  "ch CHR ''u'' = 0x75" "ch CHR ''#'' = 0x23" "ch CHR '';'' = 0x3B" "ch CHR ''0'' = 0x30"
  by (simp_all add: ch_def)

lemma charCode_unat: "charCode c = int (unat c)"
  by (simp only: charCode_def uint_nat)

lemma charCode_of_nat: "n < 65536 \<Longrightarrow> charCode (of_nat n) = int n"
  by (simp add: charCode_unat unat_of_nat)

lemma of_char_small: "(of_char c :: nat) < 65536"
proof -
  have "(of_char c :: nat) < 256" by simp
  then show ?thesis by linarith
qed

lemma charCode_ch: "charCode (ch c) = int (of_char c)"
  unfolding ch_def by (rule charCode_of_nat) (rule of_char_small)

lemma charCode_char_of: "n < 256 \<Longrightarrow> charCode (ch (char_of n)) = int n"
  by (simp add: charCode_ch)

lemma unat_small: "unat (c :: 16 word) < 65536"
  using unsigned_less[of c] by simp

lemma decimalChar_digit:
  "d < 10 \<Longrightarrow> decimalDigit (ch (decimalChar d)) \<and> digitValue (ch (decimalChar d)) = int d"
  by (simp add: decimalDigit_def digitValue_def decimalChar_def charCode_char_of)

lemma hexUpperChar_digit:
  "d < 16 \<Longrightarrow> hexDigit (ch (hexUpperChar d)) \<and> digitValue (ch (hexUpperChar d)) = int d
     \<and> letterOrDigit (ch (hexUpperChar d))"
  by (auto simp add: hexDigit_def decimalDigit_def digitValue_def hexUpperChar_def
        charCode_char_of letterOrDigit_def asciiLetter_def)

lemma parseInt_map:
  assumes "\<And>d. d \<in> set ds \<Longrightarrow> digitValue (g d) = int d"
  shows "foldl (\<lambda>acc c. acc * int b + digitValue c) (int a) (map g ds)
         = int (foldl (\<lambda>acc d. acc * b + d) a ds)"
  using assms
proof (induction ds arbitrary: a)
  case Nil
  then show ?case by simp
next
  case (Cons d ds)
  have "foldl (\<lambda>acc c. acc * int b + digitValue c) (int (a * b + d)) (map g ds)
         = int (foldl (\<lambda>acc d. acc * b + d) (a * b + d) ds)"
    by (rule Cons.IH) (simp add: Cons.prems)
  then show ?case by (simp add: Cons.prems)
qed

lemma digits_nonempty: "digits b n \<noteq> []"
  by (subst digits.simps) simp

lemma digits_bound: "2 \<le> b \<Longrightarrow> d \<in> set (digits b n) \<Longrightarrow> d < b"
proof (induction b n rule: digits.induct)
  case (1 b n)
  show ?case
  proof (cases "n < b \<or> b < 2")
    case True
    with 1(2,3) show ?thesis by (subst (asm) digits.simps) simp
  next
    case False
    with 1 show ?thesis by (subst (asm) (2) digits.simps) auto
  qed
qed

lemma digits_value: "2 \<le> b \<Longrightarrow> foldl (\<lambda>acc d. acc * b + d) 0 (digits b n) = n"
proof (induction b n rule: digits.induct)
  case (1 b n)
  show ?case
  proof (cases "n < b \<or> b < 2")
    case True
    with 1(2) show ?thesis by (subst digits.simps) simp
  next
    case False
    with 1 show ?thesis by (subst digits.simps) simp
  qed
qed

lemma digits_length: "2 \<le> b \<Longrightarrow> n < b ^ k \<Longrightarrow> 0 < k \<Longrightarrow> length (digits b n) \<le> k"
proof (induction k arbitrary: n)
  case 0
  then show ?case by simp
next
  case (Suc k)
  show ?case
  proof (cases "n < b")
    case True
    then show ?thesis by (subst digits.simps) simp
  next
    case False
    then have "0 < k" using Suc.prems by (cases k) auto
    moreover have "n div b < b ^ k" using Suc.prems
      by (simp add: less_mult_imp_div_less mult.commute)
    ultimately have "length (digits b (n div b)) \<le> k" using Suc by simp
    with False Suc.prems show ?thesis by (subst digits.simps) simp
  qed
qed

lemma parseInt_toHexUpper: "parseInt (toHexUpper n) 16 = int n"
proof -
  have "foldl (\<lambda>acc c. acc * int 16 + digitValue c) (int 0)
          (map (\<lambda>d. ch (hexUpperChar d)) (digits 16 n))
        = int (foldl (\<lambda>acc d. acc * 16 + d) 0 (digits 16 n))"
    by (rule parseInt_map) (simp add: hexUpperChar_digit digits_bound)
  then show ?thesis by (simp add: parseInt_def toHexUpper_def digits_value)
qed

lemma parseInt_toDecimal: "parseInt (toDecimal n) 10 = int n"
proof -
  have "foldl (\<lambda>acc c. acc * int 10 + digitValue c) (int 0)
          (map (\<lambda>d. ch (decimalChar d)) (digits 10 n))
        = int (foldl (\<lambda>acc d. acc * 10 + d) 0 (digits 10 n))"
    by (rule parseInt_map) (simp add: decimalChar_digit digits_bound)
  then show ?thesis by (simp add: parseInt_def toDecimal_def digits_value)
qed

lemma parseInt_zeros: "parseInt (replicate k (ch CHR ''0'') @ s) r = parseInt s r"
proof -
  have "foldl (\<lambda>acc c. acc * r + digitValue c) 0 (replicate k (ch CHR ''0'')) = 0"
    by (induction k) (simp_all add: digitValue_def decimalDigit_def charCode_ch)
  then show ?thesis by (simp add: parseInt_def)
qed

lemma toHexUpper_digits: "c \<in> set (toHexUpper n) \<Longrightarrow> hexDigit c \<and> letterOrDigit c"
  by (auto simp add: toHexUpper_def hexUpperChar_digit digits_bound)

lemma toDecimal_digits: "c \<in> set (toDecimal n) \<Longrightarrow> decimalDigit c"
  by (auto simp add: toDecimal_def decimalChar_digit digits_bound)

lemma toHexUpper_nonempty: "toHexUpper n \<noteq> []"
  by (simp add: toHexUpper_def digits_nonempty)

lemma toDecimal_nonempty: "toDecimal n \<noteq> []"
  by (simp add: toDecimal_def digits_nonempty)

lemma zero_hexDigit: "hexDigit (ch CHR ''0'')"
  by (simp add: hexDigit_def decimalDigit_def charCode_ch)

lemma padded_hexDigits: "c \<in> set (padStart k (ch CHR ''0'') (toHexUpper n)) \<Longrightarrow> hexDigit c"
  by (auto simp add: padStart_def zero_hexDigit toHexUpper_digits)

lemma parseInt_padded: "parseInt (padStart k (ch CHR ''0'') (toHexUpper n)) 16 = int n"
  by (simp add: padStart_def parseInt_zeros parseInt_toHexUpper)

lemma length_toHexUpper: "n < 16 ^ k \<Longrightarrow> 0 < k \<Longrightarrow> length (toHexUpper n) \<le> k"
  by (simp add: toHexUpper_def digits_length)

lemma length_padStart: "length (padStart k f s) = max k (length s)"
  by (simp add: padStart_def)

lemma length_hex2: "n < 256 \<Longrightarrow> length (hex2 n) = 2"
  using length_toHexUpper[of n 2] by (simp add: hex2_def length_padStart)

lemma hex2_two: "n < 256 \<Longrightarrow> \<exists>a b. hex2 n = [a, b] \<and> hexDigit a \<and> hexDigit b
    \<and> parseInt [a, b] 16 = int n"
proof -
  assume n: "n < 256"
  from length_hex2[OF n] obtain a b where ab: "hex2 n = [a, b]"
    by (metis (no_types, opaque_lifting) One_nat_def Suc_1 length_0_conv length_Suc_conv)
  have "hexDigit a" "hexDigit b" using padded_hexDigits[of _ 2 n] ab by (simp_all add: hex2_def)
  moreover have "parseInt [a, b] 16 = int n" using parseInt_padded[of 2 n] ab by (simp add: hex2_def)
  ultimately show ?thesis using ab by blast
qed

lemma upToSemicolon_found:
  assumes "\<And>c. c \<in> set t \<Longrightarrow> cls c" and "\<not> cls (ch CHR '';'')"
  shows "upToSemicolon cls (t @ ch CHR '';'' # rest) = Some t"
proof -
  have "takeWhile cls (t @ ch CHR '';'' # rest) = t"
    using assms by (simp add: takeWhile_append2)
  moreover have "dropWhile cls (t @ ch CHR '';'' # rest) = ch CHR '';'' # rest"
    using assms by (simp add: dropWhile_append2)
  ultimately show ?thesis by (simp add: upToSemicolon_def)
qed

lemma semicolon_class:
  "\<not> hexDigit (ch CHR '';'')" "\<not> decimalDigit (ch CHR '';'')" "\<not> letterOrDigit (ch CHR '';'')"
  by (simp_all add: hexDigit_def decimalDigit_def letterOrDigit_def asciiLetter_def charCode_ch)

lemma fromCodePoint_unit: "n < 65536 \<Longrightarrow> fromCodePoint (int n) = Some [of_nat n]"
  by (simp add: fromCodePoint_def)

subsection \<open>The path codec: what the parser does with each encoded character\<close>

lemma decodesTo_step:
  assumes "tok \<noteq> []" and "\<And>rest. scanStep P (tok @ rest) = Append s (length tok)"
  shows "decodesTo P tok s"
  using assms by (cases tok) (simp_all add: decodesTo_def)

lemma decodes_literal: "\<not> hazardous P c \<Longrightarrow> decodesTo P [c] [c]"
  by (rule decodesTo_step) (auto simp add: scanStep_def hazardous_def Let_def)

lemma scan_separator: "scanStep P (ch CHR ''/'' # rest) = Separator"
  by (simp add: scanStep_def ch_values)

lemma decodes_backslash_self:
  "has P BACKSLASH_ESCAPES \<Longrightarrow> x \<in> {0x2F, 0x5C, 0x25, 0x26} \<Longrightarrow> decodesTo P [0x5C, x] [x]"
  by (rule decodesTo_step) (auto simp add: scanStep_def scanBackslash_def ch_values Let_def)

lemma decodes_backslash_letter:
  assumes "has P BACKSLASH_ESCAPES"
  shows "decodesTo P [0x5C, 0x6E] [0x0A]" "decodesTo P [0x5C, 0x74] [0x09]"
    "decodesTo P [0x5C, 0x72] [0x0D]"
  using assms
  by (auto intro!: decodesTo_step simp add: scanStep_def scanBackslash_def ch_values Let_def)

lemma decodes_backslash_x:
  assumes "has P BACKSLASH_ESCAPES" and "n < 256"
  shows "decodesTo P ([0x5C, 0x78] @ hex2 n) [of_nat n]"
proof -
  from hex2_two[OF assms(2)] obtain a b where
    ab: "hex2 n = [a, b]" "hexDigit a" "hexDigit b" "parseInt [a, b] 16 = int n" by blast
  show ?thesis
    by (rule decodesTo_step)
       (simp_all add: ab scanStep_def scanBackslash_def ch_values Let_def assms fromCharCode_def)
qed

lemma decodes_percent:
  assumes "has P URL_ENCODING" and "n < 256"
  shows "decodesTo P (0x25 # hex2 n) [of_nat n]"
proof -
  from hex2_two[OF assms(2)] obtain a b where
    ab: "hex2 n = [a, b]" "hexDigit a" "hexDigit b" "parseInt [a, b] 16 = int n" by blast
  show ?thesis
    by (rule decodesTo_step)
       (simp_all add: ab scanStep_def scanPercent_def ch_values Let_def assms fromCharCode_def)
qed


lemma orElse_simps [simp]: "orElse None b = b" "orElse (Some x) b = Some x"
  by (simp_all add: orElse_def)

lemma ustr_simps: "ustr [] = []" "ustr (c # cs) = ch c # ustr cs"
  by (simp_all add: ustr_def)

lemma entityText_amp:
  "htmlEntities P = htmlEntities (newPathParser ms) \<Longrightarrow> entityText P [0x61, 0x6D, 0x70] = Some [0x26]"
  by (simp add: entityText_def newPathParser_def ustr_def ch_def)

lemma entityText_u:
  "htmlEntities P = htmlEntities (newPathParser ms) \<Longrightarrow> entityText P (0x75 # t) = None"
  by (simp add: entityText_def newPathParser_def objectPrototypeMembers_def ustr_def ch_def)

lemma namedEntity_u:
  "htmlEntities P = htmlEntities (newPathParser ms) \<Longrightarrow> namedEntity P (0x26 # 0x75 # s) = None"
  by (cases "upToSemicolon letterOrDigit s")
     (simp_all add: namedEntity_def matchNamedEntity_def entityText_u)

lemma not_letter_hash: "\<not> asciiLetter 0x23"
  by (simp add: asciiLetter_def charCode_def)

lemma namedEntity_hash: "namedEntity P (0x26 # 0x23 # s) = None"
  by (simp add: namedEntity_def matchNamedEntity_def not_letter_hash)

lemma numericEntity_u: "numericEntity (0x26 # 0x75 # s) = None"
  by (cases s)
     (simp_all add: numericEntity_def matchHexEntity_def matchDecimalEntity_def codePointEntity_def
        ch_values)

lemma decodes_amp:
  assumes "has P HTML_NAMED_ENTITIES" and "htmlEntities P = htmlEntities (newPathParser ms)"
  shows "decodesTo P [0x26, 0x61, 0x6D, 0x70, 0x3B] [0x26]"
proof (rule decodesTo_step)
  fix rest
  have l: "asciiLetter 0x61" "letterOrDigit 0x6D" "letterOrDigit 0x70" "\<not> letterOrDigit 0x3B"
    by (simp_all add: asciiLetter_def letterOrDigit_def decimalDigit_def charCode_def)
  have "matchNamedEntity (0x26 # 0x61 # 0x6D # 0x70 # 0x3B # rest) = Some ([0x61, 0x6D, 0x70], 5)"
    by (simp add: matchNamedEntity_def upToSemicolon_def l ch_values)
  then have "namedEntity P (0x26 # 0x61 # 0x6D # 0x70 # 0x3B # rest) = Some (Append [0x26] 5)"
    by (simp add: namedEntity_def entityText_amp[OF assms(2)])
  then show "scanStep P ([0x26, 0x61, 0x6D, 0x70, 0x3B] @ rest)
             = Append [0x26] (length [0x26 :: jchar, 0x61, 0x6D, 0x70, 0x3B])"
    by (simp add: scanStep_def scanEntity_def ch_values assms(1))
qed simp

lemma decodes_decimal:
  assumes "has P HTML_NUMERIC_ENTITIES" and "n < 65536"
  shows "decodesTo P ([0x26, 0x23] @ toDecimal n @ [0x3B]) [of_nat n]"
proof (rule decodesTo_step)
  fix rest
  obtain d ds where dd: "toDecimal n = d # ds" using toDecimal_nonempty[of n] by (cases "toDecimal n") auto
  have "decimalDigit d" using toDecimal_digits[of d n] dd by simp
  then have dx: "d \<noteq> 0x78" by (auto simp add: decimalDigit_def charCode_def)
  have hx: "matchHexEntity (0x26 # 0x23 # toDecimal n @ 0x3B # rest) = None"
    by (simp add: matchHexEntity_def dx dd ch_values)
  have up: "upToSemicolon decimalDigit (toDecimal n @ ch CHR '';'' # rest) = Some (toDecimal n)"
    by (rule upToSemicolon_found) (simp_all add: toDecimal_digits semicolon_class)
  have "matchDecimalEntity (0x26 # 0x23 # toDecimal n @ 0x3B # rest)
        = Some (toDecimal n, 3 + length (toDecimal n))"
    using up by (simp add: matchDecimalEntity_def ch_values toDecimal_nonempty)
  then have "numericEntity (0x26 # 0x23 # toDecimal n @ 0x3B # rest)
        = Some (Append [of_nat n] (3 + length (toDecimal n)))"
    using hx by (simp add: numericEntity_def codePointEntity_def parseInt_toDecimal
                   fromCodePoint_unit[OF assms(2)])
  then show "scanStep P (([0x26, 0x23] @ toDecimal n @ [0x3B]) @ rest)
             = Append [of_nat n] (length ([0x26, 0x23] @ toDecimal n @ [0x3B]))"
    by (simp add: scanStep_def scanEntity_def ch_values assms(1) namedEntity_hash)
qed simp

lemma decodes_hex:
  assumes "has P HTML_NUMERIC_ENTITIES" and "n < 65536"
  shows "decodesTo P ([0x26, 0x23, 0x78] @ toHexUpper n @ [0x3B]) [of_nat n]"
proof (rule decodesTo_step)
  fix rest
  have up: "upToSemicolon hexDigit (toHexUpper n @ ch CHR '';'' # rest) = Some (toHexUpper n)"
    by (rule upToSemicolon_found) (simp_all add: toHexUpper_digits semicolon_class)
  have "matchHexEntity (0x26 # 0x23 # 0x78 # toHexUpper n @ 0x3B # rest)
        = Some (toHexUpper n, 4 + length (toHexUpper n))"
    using up by (simp add: matchHexEntity_def ch_values toHexUpper_nonempty)
  then have "numericEntity (0x26 # 0x23 # 0x78 # toHexUpper n @ 0x3B # rest)
        = Some (Append [of_nat n] (4 + length (toHexUpper n)))"
    by (simp add: numericEntity_def codePointEntity_def parseInt_toHexUpper
          fromCodePoint_unit[OF assms(2)])
  then show "scanStep P (([0x26, 0x23, 0x78] @ toHexUpper n @ [0x3B]) @ rest)
             = Append [of_nat n] (length ([0x26, 0x23, 0x78] @ toHexUpper n @ [0x3B]))"
    by (simp add: scanStep_def scanEntity_def ch_values assms(1) namedEntity_hash)
qed simp

lemma decodes_custom:
  assumes "has P CUSTOM_UNICODE_ENTITIES" and "htmlEntities P = htmlEntities (newPathParser ms)"
    and "n < 65536" and "2 \<le> length hs" and "length hs \<le> 8"
    and "hs = padStart k (ch CHR ''0'') (toHexUpper n)"
  shows "decodesTo P ([0x26, 0x75] @ hs @ [0x3B]) [of_nat n]"
proof (rule decodesTo_step)
  fix rest
  have up: "upToSemicolon hexDigit (hs @ ch CHR '';'' # rest) = Some hs"
    by (rule upToSemicolon_found) (simp_all add: assms(6) padded_hexDigits semicolon_class)
  have "matchCustomEntity (0x26 # 0x75 # hs @ 0x3B # rest) = Some (hs, 3 + length hs)"
    using up assms(4,5) by (simp add: matchCustomEntity_def ch_values)
  then have "customEntity (0x26 # 0x75 # hs @ 0x3B # rest) = Some (Append [of_nat n] (3 + length hs))"
    by (simp add: customEntity_def codePointEntity_def assms(6) parseInt_padded
          fromCodePoint_unit[OF assms(3)])
  then show "scanStep P (([0x26, 0x75] @ hs @ [0x3B]) @ rest)
             = Append [of_nat n] (length ([0x26, 0x75] @ hs @ [0x3B]))"
    by (simp add: scanStep_def scanEntity_def ch_values assms(1) namedEntity_u[OF assms(2)]
          numericEntity_u)
qed simp

lemma hex2_values:
  "hex2 47 = ustr ''2F''" "hex2 92 = ustr ''5C''" "hex2 10 = ustr ''0A''" "hex2 9 = ustr ''09''"
  "hex2 13 = ustr ''0D''" "hex2 37 = ustr ''25''" "hex2 38 = ustr ''26''"
  by (simp_all add: hex2_def toHexUpper_def padStart_def digits.simps hexUpperChar_def ustr_def ch_def)

lemma toDecimal_values:
  "toDecimal 47 = ustr ''47''" "toDecimal 92 = ustr ''92''" "toDecimal 10 = ustr ''10''"
  "toDecimal 9 = ustr ''9''" "toDecimal 13 = ustr ''13''" "toDecimal 37 = ustr ''37''"
  "toDecimal 38 = ustr ''38''"
  by (simp_all add: toDecimal_def digits.simps decimalChar_def ustr_def ch_def)

lemma fixed_percent:
  assumes "has P URL_ENCODING"
  shows "decodesTo P (ustr ''%2F'') [0x2F]" "decodesTo P (ustr ''%5C'') [0x5C]"
    "decodesTo P (ustr ''%0A'') [0x0A]" "decodesTo P (ustr ''%09'') [0x09]"
    "decodesTo P (ustr ''%0D'') [0x0D]" "decodesTo P (ustr ''%25'') [0x25]"
    "decodesTo P (ustr ''%26'') [0x26]"
  using decodes_percent[OF assms, of 47] decodes_percent[OF assms, of 92]
    decodes_percent[OF assms, of 10] decodes_percent[OF assms, of 9]
    decodes_percent[OF assms, of 13] decodes_percent[OF assms, of 37]
    decodes_percent[OF assms, of 38]
  by (simp_all add: hex2_values ustr_simps ch_values)

lemma fixed_decimal:
  assumes "has P HTML_NUMERIC_ENTITIES"
  shows "decodesTo P (ustr ''&#47;'') [0x2F]" "decodesTo P (ustr ''&#92;'') [0x5C]"
    "decodesTo P (ustr ''&#10;'') [0x0A]" "decodesTo P (ustr ''&#9;'') [0x09]"
    "decodesTo P (ustr ''&#13;'') [0x0D]" "decodesTo P (ustr ''&#37;'') [0x25]"
    "decodesTo P (ustr ''&#38;'') [0x26]"
  using decodes_decimal[OF assms, of 47] decodes_decimal[OF assms, of 92]
    decodes_decimal[OF assms, of 10] decodes_decimal[OF assms, of 9]
    decodes_decimal[OF assms, of 13] decodes_decimal[OF assms, of 37]
    decodes_decimal[OF assms, of 38]
  by (simp_all add: toDecimal_values ustr_simps ch_values)

lemma fixed_amp:
  assumes "has P HTML_NAMED_ENTITIES" and "htmlEntities P = htmlEntities (newPathParser ms)"
  shows "decodesTo P (ustr ''&amp;'') [0x26]"
  using decodes_amp[OF assms] by (simp add: ustr_def ch_def)

lemma low_tokens:
  assumes "charCode c \<le> 255" and "htmlEntities P = htmlEntities (newPathParser ms)"
  shows "has P URL_ENCODING \<Longrightarrow> decodesTo P (ustr ''%'' @ hex2 (unat c)) [c]"
    "has P BACKSLASH_ESCAPES \<Longrightarrow> decodesTo P ([0x5C, 0x78] @ hex2 (unat c)) [c]"
    "has P HTML_NUMERIC_ENTITIES \<Longrightarrow> decodesTo P (ustr ''&#'' @ toDecimal (unat c) @ ustr '';'') [c]"
    "has P CUSTOM_UNICODE_ENTITIES \<Longrightarrow> decodesTo P (ustr ''&u'' @ hex2 (unat c) @ ustr '';'') [c]"
proof -
  have "int (unat c) \<le> 255" using assms(1) by (simp only: charCode_unat)
  then have u: "unat c < 256" by linarith
  then have u': "unat c < 65536" by simp
  show "has P URL_ENCODING \<Longrightarrow> decodesTo P (ustr ''%'' @ hex2 (unat c)) [c]"
    using decodes_percent[of P "unat c", OF _ u] by (simp add: ustr_simps ch_values)
  show "has P BACKSLASH_ESCAPES \<Longrightarrow> decodesTo P ([0x5C, 0x78] @ hex2 (unat c)) [c]"
    using decodes_backslash_x[of P "unat c", OF _ u] by simp
  show "has P HTML_NUMERIC_ENTITIES \<Longrightarrow> decodesTo P (ustr ''&#'' @ toDecimal (unat c) @ ustr '';'') [c]"
    using decodes_decimal[of P "unat c", OF _ u'] by (simp add: ustr_simps ch_values)
  show "has P CUSTOM_UNICODE_ENTITIES \<Longrightarrow> decodesTo P (ustr ''&u'' @ hex2 (unat c) @ ustr '';'') [c]"
    using decodes_custom[of P ms "unat c" "hex2 (unat c)" 2, OF _ assms(2) u'] length_hex2[OF u]
    by (simp add: ustr_simps ch_values hex2_def)
qed

lemma high_tokens:
  assumes "htmlEntities P = htmlEntities (newPathParser ms)"
  shows "has P HTML_NUMERIC_ENTITIES \<Longrightarrow>
           decodesTo P (ustr ''&#x'' @ toHexUpper (unat c) @ ustr '';'') [c]"
    "has P CUSTOM_UNICODE_ENTITIES \<Longrightarrow>
       decodesTo P (ustr ''&u'' @ padStart 4 (ch CHR ''0'') (toHexUpper (unat c)) @ ustr '';'') [c]"
proof -
  have u: "unat c < 65536" by (rule unat_small)
  have "length (toHexUpper (unat c)) \<le> 4" using length_toHexUpper[of "unat c" 4] u by simp
  then have l: "length (padStart 4 (ch CHR ''0'') (toHexUpper (unat c))) = 4"
    by (simp add: length_padStart)
  show "has P HTML_NUMERIC_ENTITIES \<Longrightarrow>
           decodesTo P (ustr ''&#x'' @ toHexUpper (unat c) @ ustr '';'') [c]"
    using decodes_hex[of P "unat c", OF _ u] by (simp add: ustr_simps ch_values)
  show "has P CUSTOM_UNICODE_ENTITIES \<Longrightarrow>
       decodesTo P (ustr ''&u'' @ padStart 4 (ch CHR ''0'') (toHexUpper (unat c)) @ ustr '';'') [c]"
    using decodes_custom[of P ms "unat c" "padStart 4 (ch CHR ''0'') (toHexUpper (unat c))" 4,
            OF _ assms u] l
    by (simp add: ustr_simps ch_values)
qed

lemma encodeChar_decodes:
  assumes rt: "roundTrips P c" and std: "htmlEntities P = htmlEntities (newPathParser ms)"
  shows "decodesTo P (encodeChar P c) [c]"
proof (cases "encodeChar P c = [c]")
  case True
  then have "\<not> hazardous P c" using rt by (simp add: roundTrips_def requiresUnavailableEscape_def)
  then show ?thesis using decodes_literal[of P c] True by simp
next
  case False
  have u: "\<not> (255 < charCode c \<and> \<not> has P HTML_NUMERIC_ENTITIES
              \<and> \<not> has P CUSTOM_UNICODE_ENTITIES \<and> has P URL_ENCODING)"
    using rt by (simp add: roundTrips_def utf8PercentEncoded_def)
  consider "c = 0x2F" | "c = 0x5C" | "c = 0x0A" | "c = 0x09" | "c = 0x0D" | "c = 0x25" | "c = 0x26"
    | "c \<notin> {0x2F, 0x5C, 0x0A, 0x09, 0x0D, 0x25, 0x26}" "charCode c \<le> 255"
    | "c \<notin> {0x2F, 0x5C, 0x0A, 0x09, 0x0D, 0x25, 0x26}" "255 < charCode c"
    by fastforce
  then show ?thesis
  proof cases
    case 1
    then show ?thesis
      using False fixed_percent(1)[of P] fixed_decimal(1)[of P] decodes_backslash_self[of P c]
      by (auto simp add: encodeChar_def ch_values)
  next
    case 2
    then show ?thesis
      using False fixed_percent(2)[of P] fixed_decimal(2)[of P] decodes_backslash_self[of P c]
      by (auto simp add: encodeChar_def ch_values)
  next
    case 3
    then show ?thesis
      using False fixed_percent(3)[of P] fixed_decimal(3)[of P] decodes_backslash_letter(1)[of P]
      by (auto simp add: encodeChar_def ch_values)
  next
    case 4
    then show ?thesis
      using False fixed_percent(4)[of P] fixed_decimal(4)[of P] decodes_backslash_letter(2)[of P]
      by (auto simp add: encodeChar_def ch_values)
  next
    case 5
    then show ?thesis
      using False fixed_percent(5)[of P] fixed_decimal(5)[of P] decodes_backslash_letter(3)[of P]
      by (auto simp add: encodeChar_def ch_values)
  next
    case 6
    then show ?thesis
      using False fixed_percent(6)[of P] fixed_decimal(6)[of P] decodes_backslash_self[of P c]
      by (auto simp add: encodeChar_def ch_values)
  next
    case 7
    then show ?thesis
      using False fixed_percent(7)[of P] fixed_decimal(7)[of P] decodes_backslash_self[of P c]
        fixed_amp[of P ms, OF _ std]
      by (auto simp add: encodeChar_def ch_values)
  next
    case 8
    then show ?thesis
      using False low_tokens[of c P ms, OF _ std]
      by (auto simp add: encodeChar_def ch_values)
  next
    case 9
    then show ?thesis
      using False high_tokens[of P ms c, OF std] u
      by (auto simp add: encodeChar_def ch_values)
  qed
qed

subsection \<open>The path codec: round trip\<close>

lemma encodePathComponent_fold:
  "foldl (\<lambda>result char. result @ encodeChar P char) acc component
   = acc @ concat (map (encodeChar P) component)"
  by (induction component arbitrary: acc) simp_all

lemma encodePathComponent_Cons:
  "encodePathComponent P [] = []"
  "encodePathComponent P (c # cs) = encodeChar P c @ encodePathComponent P cs"
  by (simp_all add: encodePathComponent_def encodePathComponent_fold)

lemma component_decodes:
  assumes "\<And>c. c \<in> set seg \<Longrightarrow> roundTrips P c"
    and "htmlEntities P = htmlEntities (newPathParser ms)"
  shows "parseLoop P (encodePathComponent P seg @ rest) components current
         = parseLoop P rest components (current @ seg)"
  using assms(1)
proof (induction seg arbitrary: current)
  case Nil
  then show ?case by (simp add: encodePathComponent_Cons)
next
  case (Cons c seg)
  have "decodesTo P (encodeChar P c) [c]"
    by (rule encodeChar_decodes[OF _ assms(2)]) (simp add: Cons.prems)
  then have "parseLoop P (encodeChar P c @ encodePathComponent P seg @ rest) components current
             = parseLoop P (encodePathComponent P seg @ rest) components (current @ [c])"
    by (simp add: decodesTo_def)
  also have "\<dots> = parseLoop P rest components ((current @ [c]) @ seg)"
    by (rule Cons.IH) (simp add: Cons.prems)
  finally show ?case by (simp add: encodePathComponent_Cons)
qed

lemma joined_decodes:
  assumes "\<And>seg c. seg \<in> set segs \<Longrightarrow> c \<in> set seg \<Longrightarrow> roundTrips P c"
    and "htmlEntities P = htmlEntities (newPathParser ms)"
    and "segs \<noteq> []"
  shows "parseLoop P (joinWith (ustr ''/'') (map (encodePathComponent P) segs)) components current
         = components @ [current @ hd segs] @ tl segs"
  using assms(1,3)
proof (induction segs arbitrary: components current)
  case Nil
  then show ?case by simp
next
  case (Cons x segs)
  have rtx: "\<And>c. c \<in> set x \<Longrightarrow> roundTrips P c" using Cons.prems(1) by auto
  have x: "\<And>rest comps cur. parseLoop P (encodePathComponent P x @ rest) comps cur
             = parseLoop P rest comps (cur @ x)"
    by (rule component_decodes[OF rtx assms(2)])
  show ?case
  proof (cases segs)
    case Nil
    then show ?thesis using x[of "[]"] by simp
  next
    case (Cons y ys)
    have "parseLoop P (joinWith (ustr ''/'') (map (encodePathComponent P) (x # segs)))
            components current
          = parseLoop P (encodePathComponent P x
                @ ch CHR ''/'' # joinWith (ustr ''/'') (map (encodePathComponent P) segs))
              components current"
      by (simp add: Cons ustr_simps)
    also have "\<dots> = parseLoop P (ch CHR ''/''
                # joinWith (ustr ''/'') (map (encodePathComponent P) segs))
              components (current @ x)"
      by (rule x)
    also have "\<dots> = parseLoop P (joinWith (ustr ''/'') (map (encodePathComponent P) segs))
              (components @ [current @ x]) []"
      by (simp add: scan_separator)
    also have "\<dots> = (components @ [current @ x]) @ [[] @ hd segs] @ tl segs"
      by (rule Cons.IH) (use Cons.prems Cons in auto)
    finally show ?thesis by (simp add: Cons)
  qed
qed

lemma requiresUnavailableEscape_iff:
  "requiresUnavailableEscape P c \<longleftrightarrow>
     (c = ch CHR ''/'' \<and> \<not> has P BACKSLASH_ESCAPES \<and> \<not> has P URL_ENCODING
        \<and> \<not> has P HTML_NUMERIC_ENTITIES) \<or>
     (c = ch CHR ''&'' \<and> \<not> has P HTML_NAMED_ENTITIES \<and> \<not> has P URL_ENCODING
        \<and> \<not> has P HTML_NUMERIC_ENTITIES \<and> \<not> has P BACKSLASH_ESCAPES
        \<and> has P CUSTOM_UNICODE_ENTITIES)"
  by (auto simp add: requiresUnavailableEscape_def hazardous_def encodeChar_def ch_values
        ustr_simps)

lemma has_newPathParser: "has (newPathParser ms) m \<longleftrightarrow> m \<in> set ms"
  by (simp add: has_def newPathParser_def)

lemma roundTrips_allMethods: "roundTrips (newPathParser allMethods) c"
  by (simp add: roundTrips_def requiresUnavailableEscape_iff utf8PercentEncoded_def
        has_newPathParser allMethods_def)

lemma parsePath_createPath_general:
  assumes "\<And>seg c. seg \<in> set S \<Longrightarrow> c \<in> set seg \<Longrightarrow> roundTrips P c"
    and "htmlEntities P = htmlEntities (newPathParser ms)"
  shows "parsePath P (createPath P S) = nonEmptySegments S"
proof (cases "filter (\<lambda>s. s \<noteq> []) S = []")
  case True
  then show ?thesis by (simp add: parsePath_def createPath_def nonEmptySegments_def)
next
  case False
  let ?F = "filter (\<lambda>s. s \<noteq> []) S"
  have "parseLoop P (joinWith (ustr ''/'') (map (encodePathComponent P) ?F)) [] []
        = [] @ [[] @ hd ?F] @ tl ?F"
    by (rule joined_decodes[OF _ assms(2) False]) (use assms(1) in auto)
  then have loop: "parseLoop P (joinWith (ustr ''/'') (map (encodePathComponent P) ?F)) [] [] = ?F"
    using False by simp
  have "filter (\<lambda>component. if component = [] then length ?F = 1 else True) ?F = ?F"
    by (rule filter_True) auto
  then show ?thesis using False by (simp add: parsePath_def createPath_def nonEmptySegments_def loop)
qed

text \<open>
  Claim C1, amended. Under every configuration of escape schemes, for every segment sequence in
  which no character requires an escape scheme that is not enabled, and none is a character
  above U+00FF written as percent-encoded UTF-8 bytes, parsing the encoded path gives back the
  non-empty segments of the sequence, and the one empty segment when there is none. So it gives
  the sequence back when it is not empty and has no empty segment. With all five schemes enabled
  this holds for every segment sequence.
\<close>

theorem parsePath_createPath:
  "((\<forall>seg \<in> set S. \<forall>c \<in> set seg. \<not> requiresUnavailableEscape (newPathParser methods) c
        \<and> \<not> utf8PercentEncoded (newPathParser methods) c) \<longrightarrow>
      parsePath (newPathParser methods) (createPath (newPathParser methods) S)
        = nonEmptySegments S) \<and>
   parsePath (newPathParser allMethods) (createPath (newPathParser allMethods) S)
     = nonEmptySegments S \<and>
   (S \<noteq> [] \<and> [] \<notin> set S \<longrightarrow> nonEmptySegments S = S)"
proof (intro conjI impI)
  assume "\<forall>seg \<in> set S. \<forall>c \<in> set seg. \<not> requiresUnavailableEscape (newPathParser methods) c
        \<and> \<not> utf8PercentEncoded (newPathParser methods) c"
  then show "parsePath (newPathParser methods) (createPath (newPathParser methods) S)
        = nonEmptySegments S"
    by (intro parsePath_createPath_general[where ms = methods]) (simp_all add: roundTrips_def)
next
  show "parsePath (newPathParser allMethods) (createPath (newPathParser allMethods) S)
     = nonEmptySegments S"
    by (rule parsePath_createPath_general[where ms = allMethods])
       (simp_all add: roundTrips_allMethods)
next
  assume "S \<noteq> [] \<and> [] \<notin> set S"
  then have "filter (\<lambda>s. s \<noteq> []) S = S" by (intro filter_True) auto
  then show "nonEmptySegments S = S" using \<open>S \<noteq> [] \<and> [] \<notin> set S\<close>
    by (simp add: nonEmptySegments_def)
qed

theorem parsePath_createPath_witness:
  "parsePath (newPathParser [URL_ENCODING])
     (createPath (newPathParser [URL_ENCODING]) [ustr ''a/b'', [0xE9], ustr ''c&d''])
     = [ustr ''a/b'', [0xE9], ustr ''c&d''] \<and>
   parsePath (newPathParser allMethods)
     (createPath (newPathParser allMethods) [[0x2F, 0x100, 0xD800], ustr ''%&'', [0x5C, 0x0A]])
     = [[0x2F, 0x100, 0xD800], ustr ''%&'', [0x5C, 0x0A]]"
proof -
  let ?S = "[ustr ''a/b'', [0xE9], ustr ''c&d'']"
  let ?T = "[[0x2F, 0x100, 0xD800], ustr ''%&'', [0x5C, 0x0A :: jchar]]"
  have h: "\<forall>seg \<in> set ?S. \<forall>c \<in> set seg.
             \<not> requiresUnavailableEscape (newPathParser [URL_ENCODING]) c
             \<and> \<not> utf8PercentEncoded (newPathParser [URL_ENCODING]) c"
    by (simp add: requiresUnavailableEscape_iff utf8PercentEncoded_def has_newPathParser
          ustr_simps ch_def charCode_def)
  have s: "?S \<noteq> [] \<and> [] \<notin> set ?S" by (simp add: ustr_simps)
  have t: "?T \<noteq> [] \<and> [] \<notin> set ?T" by (simp add: ustr_simps)
  from parsePath_createPath[of ?S "[URL_ENCODING]"] h s
  have 1: "parsePath (newPathParser [URL_ENCODING]) (createPath (newPathParser [URL_ENCODING]) ?S)
           = ?S"
    by simp
  from parsePath_createPath[of ?T "[]"] t
  have 2: "parsePath (newPathParser allMethods) (createPath (newPathParser allMethods) ?T) = ?T"
    by simp
  from 1 2 show ?thesis by (rule conjI)
qed

theorem parsePath_createPath_counterexample:
  "parsePath (newPathParser allMethods) (createPath (newPathParser allMethods) []) \<noteq> [] \<and>
   parsePath (newPathParser allMethods) (createPath (newPathParser allMethods) []) = [[]]"
  by (simp add: parsePath_def createPath_def)

text \<open>
  The characters the round trip leaves out: with URL encoding as the only scheme able to write
  it, a character above U+00FF is written as the percent-encoded bytes of its UTF-8 form, and
  the parser reads each \<^verbatim>\<open>%HH\<close> back as one code unit.
\<close>

lemma percent_encoded_utf8_not_decoded:
  "createPath (newPathParser [URL_ENCODING]) [[0x100]] = ustr ''%C4%80'' \<and>
   parsePath (newPathParser [URL_ENCODING]) (ustr ''%C4%80'') = [[0xC4, 0x80]]"
proof -
  let ?P = "newPathParser [URL_ENCODING]"
  have url: "has ?P URL_ENCODING" by (simp add: has_newPathParser)
  have h: "hex2 196 = ustr ''C4''" "hex2 128 = ustr ''80''"
    by (simp_all add: hex2_def toHexUpper_def padStart_def digits.simps hexUpperChar_def
          ustr_def ch_def)
  have enc: "encodeChar ?P 0x100 = ustr ''%C4%80''"
    by (simp add: encodeChar_def has_newPathParser ch_values charCode_def h ustr_simps)
  have c: "createPath ?P [[0x100]] = ustr ''%C4%80''"
    by (simp add: createPath_def encodePathComponent_Cons enc)
  have "parseLoop ?P ((0x25 # hex2 196) @ (0x25 # hex2 128) @ []) [] [] = [[0xC4, 0x80]]"
    using decodes_percent[OF url, of 196] decodes_percent[OF url, of 128]
    by (simp add: decodesTo_def del: append.simps append_Nil2) simp
  then have "parseLoop ?P (ustr ''%C4%80'') [] [] = [[0xC4, 0x80]]"
    by (simp add: h ustr_simps ch_values)
  then have "parsePath ?P (ustr ''%C4%80'') = [[0xC4, 0x80]]"
    by (simp add: parsePath_def)
  with c show ?thesis by simp
qed

end
